theory Spec2Isabelle
  imports Main "HOL-Library.AList" "HOL-Library.Sublist"
begin

section \<open>JavaScript strings and numbers\<close>

text \<open>
  A JavaScript string is modelled as a \<^typ>\<open>string\<close>: a list of 8-bit characters, read as the
  UTF-8 bytes of the text.

  \<open>WhiteSpace\<close> lists the code points that \<open>String.prototype.trim\<close> and \<open>Number\<close> strip, each
  as its UTF-8 bytes: the ECMAScript white space (U+0009, U+000B, U+000C, U+FEFF and the
  space separators U+0020, U+00A0, U+1680, U+2000 to U+200A, U+202F, U+205F, U+3000) and the
  line terminators (U+000A, U+000D, U+2028, U+2029). \<open>strip\<close> removes such code points from
  the front of a string for as long as there is one, and \<open>trim\<close> does so at both ends.
\<close>

definition WhiteSpace :: "string list" where
  "WhiteSpace =
     [[CHR 0x09], [CHR 0x0A], [CHR 0x0B], [CHR 0x0C], [CHR 0x0D], [CHR 0x20],
      [CHR 0xC2, CHR 0xA0],
      [CHR 0xE1, CHR 0x9A, CHR 0x80],
      [CHR 0xE2, CHR 0x80, CHR 0x80], [CHR 0xE2, CHR 0x80, CHR 0x81],
      [CHR 0xE2, CHR 0x80, CHR 0x82], [CHR 0xE2, CHR 0x80, CHR 0x83],
      [CHR 0xE2, CHR 0x80, CHR 0x84], [CHR 0xE2, CHR 0x80, CHR 0x85],
      [CHR 0xE2, CHR 0x80, CHR 0x86], [CHR 0xE2, CHR 0x80, CHR 0x87],
      [CHR 0xE2, CHR 0x80, CHR 0x88], [CHR 0xE2, CHR 0x80, CHR 0x89],
      [CHR 0xE2, CHR 0x80, CHR 0x8A],
      [CHR 0xE2, CHR 0x80, CHR 0xA8], [CHR 0xE2, CHR 0x80, CHR 0xA9],
      [CHR 0xE2, CHR 0x80, CHR 0xAF],
      [CHR 0xE2, CHR 0x81, CHR 0x9F],
      [CHR 0xE3, CHR 0x80, CHR 0x80],
      [CHR 0xEF, CHR 0xBB, CHR 0xBF]]"

function strip :: "string list \<Rightarrow> string \<Rightarrow> string" where
  "strip wss s =
     (case find (\<lambda>ws. ws \<noteq> [] \<and> prefix ws s) wss of
        None \<Rightarrow> s
      | Some ws \<Rightarrow> strip wss (drop (length ws) s))"
  by pat_completeness auto
termination
  by (relation "measure (\<lambda>(wss, s). length s)") (auto simp: find_Some_iff prefix_def)

declare strip.simps [simp del]

definition trim :: "string \<Rightarrow> string" where
  "trim s = rev (strip (map rev WhiteSpace) (rev (strip WhiteSpace s)))"

text \<open>
  \<open>toLowerCase\<close> maps the ASCII capital letters and leaves every other byte as it is.
  (JavaScript also maps capital letters outside ASCII. None of them becomes an ASCII letter,
  except the Kelvin sign, which becomes \<open>k\<close>, and U+0130, which becomes \<open>i\<close> followed by
  U+0307; no key that this program looks up after lower-casing is reached that way.)
\<close>

definition lower_char :: "char \<Rightarrow> char" where
  "lower_char c =
     (let n = (of_char c :: nat) in if 65 \<le> n \<and> n \<le> 90 then char_of (n + 32) else c)"

definition toLowerCase :: "string \<Rightarrow> string" where
  "toLowerCase s = map lower_char s"

text \<open>The no-break space U+00A0, for the examples.\<close>

definition nbsp :: string where
  "nbsp = [CHR 0xC2, CHR 0xA0]"

text \<open>
  Numbers: the program only ever computes with integer millisecond timestamps, which a
  double holds exactly below \<open>2^53\<close>; they are modelled as unbounded integers. \<open>NaN\<close> is the
  result of converting a string that is not a number.
\<close>

datatype jsnum = NaN | Num int

definition digit_char :: "nat \<Rightarrow> char" where
  "digit_char d = char_of (48 + d)"

fun digits :: "nat \<Rightarrow> string" where
  "digits n = (if n < 10 then [digit_char n] else digits (n div 10) @ [digit_char (n mod 10)])"

declare digits.simps [simp del]

text \<open>\<open>String(x)\<close> for a number \<open>x\<close>: the decimal numeral, with a minus sign when negative.\<close>

fun String_num :: "jsnum \<Rightarrow> string" where
  "String_num NaN = ''NaN''"
| "String_num (Num i) = (if i < 0 then CHR ''-'' # digits (nat (- i)) else digits (nat i))"

definition isDigit :: "char \<Rightarrow> bool" where
  "isDigit c = (48 \<le> (of_char c :: nat) \<and> (of_char c :: nat) \<le> 57)"

definition dec_val :: "string \<Rightarrow> nat" where
  "dec_val ds = foldl (\<lambda>a c. 10 * a + (of_char c - 48)) 0 ds"

text \<open>
  \<open>Number(s)\<close> for a string \<open>s\<close>: white space around the numeral is ignored, the empty
  string is \<open>0\<close>, an optionally signed run of decimal digits is its value, and anything else is
  \<open>NaN\<close>. (JavaScript also reads fractions, exponents, radix prefixes and \<open>Infinity\<close>; this
  program never writes such a string, and the model reads them as \<open>NaN\<close>.)
\<close>

definition Number :: "string \<Rightarrow> jsnum" where
  "Number s =
     (case trim s of
        [] \<Rightarrow> Num 0
      | c # ds \<Rightarrow>
          if c = CHR ''+'' \<or> c = CHR ''-'' then
            (if ds \<noteq> [] \<and> list_all isDigit ds
             then Num (if c = CHR ''-'' then - int (dec_val ds) else int (dec_val ds))
             else NaN)
          else if list_all isDigit (c # ds) then Num (int (dec_val (c # ds)))
          else NaN)"

text \<open>Truthiness of a number (\<open>0\<close> and \<open>NaN\<close> are falsy) and the comparison \<open>x > t\<close>.\<close>

fun truthy :: "jsnum \<Rightarrow> bool" where
  "truthy NaN = False"
| "truthy (Num i) = (i \<noteq> 0)"

fun gt :: "jsnum \<Rightarrow> int \<Rightarrow> bool" where
  "gt NaN t = False"
| "gt (Num i) t = (t < i)"

text \<open>\<open>v || d\<close> for \<open>v\<close> a string or \<open>null\<close>: \<open>null\<close> and the empty string give \<open>d\<close>.\<close>

fun or_default :: "string option \<Rightarrow> string \<Rightarrow> string" where
  "or_default None d = d"
| "or_default (Some v) d = (if v = [] then d else v)"

section \<open>auth.js: the session gate\<close>

definition AUTH_EXP_KEY :: string where
  "AUTH_EXP_KEY = ''ienergy_portal_session_expiry_v3''"

definition AUTH_ROLE_KEY :: string where
  "AUTH_ROLE_KEY = ''ienergy_portal_role_v3''"

definition AUTH_USER_KEY :: string where
  "AUTH_USER_KEY = ''ienergy_portal_user_v3''"

definition AUTH_TTL_MS :: int where
  "AUTH_TTL_MS = 15 * 60 * 1000"

text \<open>The credential table \<open>USERS\<close>: username, password, role.\<close>

definition USERS :: "(string \<times> string \<times> string) list" where
  "USERS = [(''admin'', ''iEnergy2023'', ''admin''), (''user'', ''iEnergy'', ''employee'')]"

text \<open>
  \<open>USERS[u]\<close> is a property read on an object literal, so besides the two own entries it
  finds the properties every object inherits; such a value is truthy and has no \<open>password\<close>.
\<close>

definition Object_prototype_keys :: "string list" where
  "Object_prototype_keys =
     [''constructor'', ''__defineGetter__'', ''__defineSetter__'', ''hasOwnProperty'',
      ''__lookupGetter__'', ''__lookupSetter__'', ''isPrototypeOf'', ''propertyIsEnumerable'',
      ''toString'', ''valueOf'', ''__proto__'', ''toLocaleString'']"

datatype urec = Own string string | Inherited

definition USERS_get :: "string \<Rightarrow> urec option" where
  "USERS_get u =
     (case map_of USERS u of
        Some (p, r) \<Rightarrow> Some (Own p r)
      | None \<Rightarrow> if u \<in> set Object_prototype_keys then Some Inherited else None)"

definition LEGACY_KEYS_TO_CLEAR :: "string list" where
  "LEGACY_KEYS_TO_CLEAR =
     [''ienergy_portal_session_expiry_v1'', ''ienergy_portal_role_v2'',
      ''ienergy_portal_user_v2'', ''ienergy_portal_session_expiry_v2'',
      ''ienergy_home_authed_v1'', ''salary_query_authed_v1'', ''employee_db_authed_v1'']"

text \<open>
  The two browser stores. \<open>S\<close> (sessionStorage) and \<open>L\<close> (localStorage) are \<open>None\<close> when
  \<open>safeStorage\<close> found the store unavailable, and otherwise hold the store's content. A call
  on an available store is taken to succeed; on an unavailable one the accessors do nothing
  and read \<open>null\<close>.
\<close>

type_synonym storage = "string \<rightharpoonup> string"

record world =
  S :: "storage option"
  L :: "storage option"

definition sGet :: "string \<Rightarrow> world \<Rightarrow> string option" where
  "sGet key w = (case S w of None \<Rightarrow> None | Some m \<Rightarrow> m key)"

definition sSet :: "string \<Rightarrow> string \<Rightarrow> world \<Rightarrow> world" where
  "sSet key val w = (case S w of None \<Rightarrow> w | Some m \<Rightarrow> w\<lparr>S := Some (m(key \<mapsto> val))\<rparr>)"

definition sDel :: "string \<Rightarrow> world \<Rightarrow> world" where
  "sDel key w = (case S w of None \<Rightarrow> w | Some m \<Rightarrow> w\<lparr>S := Some (m(key := None))\<rparr>)"

definition lGet :: "string \<Rightarrow> world \<Rightarrow> string option" where
  "lGet key w = (case L w of None \<Rightarrow> None | Some m \<Rightarrow> m key)"

definition lSet :: "string \<Rightarrow> string \<Rightarrow> world \<Rightarrow> world" where
  "lSet key val w = (case L w of None \<Rightarrow> w | Some m \<Rightarrow> w\<lparr>L := Some (m(key \<mapsto> val))\<rparr>)"

definition lDel :: "string \<Rightarrow> world \<Rightarrow> world" where
  "lDel key w = (case L w of None \<Rightarrow> w | Some m \<Rightarrow> w\<lparr>L := Some (m(key := None))\<rparr>)"

record auth =
  exp :: jsnum
  role :: string
  user :: string

definition readAuthFrom :: "(string \<Rightarrow> string option) \<Rightarrow> auth" where
  "readAuthFrom storeGet =
     \<lparr> exp = Number (or_default (storeGet AUTH_EXP_KEY) ''0''),
       role = or_default (storeGet AUTH_ROLE_KEY) [],
       user = or_default (storeGet AUTH_USER_KEY) [] \<rparr>"

definition writeAuth :: "jsnum \<Rightarrow> string \<Rightarrow> string \<Rightarrow> world \<Rightarrow> world" where
  "writeAuth e r u w =
     lSet AUTH_USER_KEY u (lSet AUTH_ROLE_KEY r (lSet AUTH_EXP_KEY (String_num e)
       (sSet AUTH_USER_KEY u (sSet AUTH_ROLE_KEY r (sSet AUTH_EXP_KEY (String_num e) w)))))"

definition clearAuth :: "world \<Rightarrow> world" where
  "clearAuth w =
     lDel AUTH_USER_KEY (lDel AUTH_ROLE_KEY (lDel AUTH_EXP_KEY
       (sDel AUTH_USER_KEY (sDel AUTH_ROLE_KEY (sDel AUTH_EXP_KEY w)))))"

fun clearLegacy_loop :: "string list \<Rightarrow> world \<Rightarrow> world" where
  "clearLegacy_loop [] w = w"
| "clearLegacy_loop (k # ks) w = clearLegacy_loop ks (lDel k (sDel k w))"

definition clearLegacy :: "world \<Rightarrow> world" where
  "clearLegacy w = clearLegacy_loop LEGACY_KEYS_TO_CLEAR w"

definition getExpiry :: "world \<Rightarrow> jsnum" where
  "getExpiry w =
     (let ses = readAuthFrom (\<lambda>k. sGet k w) in
      if truthy (exp ses) then exp ses
      else let loc = readAuthFrom (\<lambda>k. lGet k w) in
        if truthy (exp loc) then exp loc else Num 0)"

definition getRole :: "world \<Rightarrow> string" where
  "getRole w =
     (let ses = readAuthFrom (\<lambda>k. sGet k w) in
      if role ses \<noteq> [] then role ses
      else let loc = readAuthFrom (\<lambda>k. lGet k w) in
        if role loc \<noteq> [] then role loc else [])"

definition getUser :: "world \<Rightarrow> string" where
  "getUser w =
     (let ses = readAuthFrom (\<lambda>k. sGet k w) in
      if user ses \<noteq> [] then user ses
      else let loc = readAuthFrom (\<lambda>k. lGet k w) in
        if user loc \<noteq> [] then user loc else [])"

text \<open>
  \<open>isSessionValid\<close> at the instant \<open>t\<close>: the call reads \<open>now()\<close> once for each store it
  checks, and both readings are taken to be the same instant. It returns the answer and the
  world it leaves.
\<close>

definition isSessionValid :: "int \<Rightarrow> world \<Rightarrow> bool \<times> world" where
  "isSessionValid t w =
     (let ses = readAuthFrom (\<lambda>k. sGet k w) in
      if truthy (exp ses) \<and> gt (exp ses) t \<and> role ses \<noteq> [] then (True, w)
      else let loc = readAuthFrom (\<lambda>k. lGet k w) in
        if truthy (exp loc) \<and> gt (exp loc) t \<and> role loc \<noteq> []
        then (True, writeAuth (exp loc) (role loc) (user loc) w)
        else (False, w))"

definition logout :: "world \<Rightarrow> world" where
  "logout w = clearAuth w"

text \<open>The object \<open>login\<close> returns: \<open>{ok: false}\<close>, or \<open>{ok: true, expiry, role, user}\<close>.\<close>

datatype login_result = Fail | Ok int string string

fun ok :: "login_result \<Rightarrow> bool" where
  "ok Fail = False"
| "ok (Ok e r u) = True"

text \<open>\<open>login\<close> at the instant \<open>t\<close>, for a username and a password typed into the form.\<close>

definition login :: "int \<Rightarrow> string \<Rightarrow> string \<Rightarrow> world \<Rightarrow> login_result \<times> world" where
  "login t username password w =
     (let w1 = clearLegacy w;
          u = toLowerCase (trim username)
      in case USERS_get u of
           None \<Rightarrow> (Fail, w1)
         | Some Inherited \<Rightarrow> (Fail, w1)
         | Some (Own p r) \<Rightarrow>
             if password \<noteq> p then (Fail, w1)
             else let e = t + AUTH_TTL_MS in (Ok e r u, writeAuth (Num e) r u w1))"

text \<open>
  The spec's words for a valid session, read at the instant \<open>t\<close>: the expiry is set (a
  number other than \<open>0\<close>), it lies strictly after \<open>t\<close>, and the role is not empty.
\<close>

definition valid_spec :: "int \<Rightarrow> auth \<Rightarrow> bool" where
  "valid_spec t a = ((case exp a of NaN \<Rightarrow> False | Num e \<Rightarrow> e \<noteq> 0 \<and> t < e) \<and> role a \<noteq> [])"

text \<open>Example worlds for the concrete instances below.\<close>

definition w_fresh :: world where
  "w_fresh = \<lparr>S = Some Map.empty, L = None\<rparr>"

definition w_none :: world where
  "w_none = \<lparr>S = None, L = None\<rparr>"

definition w_session :: world where
  "w_session = \<lparr>S = Some [AUTH_EXP_KEY \<mapsto> ''5000'', AUTH_ROLE_KEY \<mapsto> ''admin'',
                          AUTH_USER_KEY \<mapsto> ''admin'', ''employee_db_authed_v1'' \<mapsto> ''4000''],
               L = None\<rparr>"

definition w_local_only :: world where
  "w_local_only = \<lparr>S = None,
      L = Some [AUTH_EXP_KEY \<mapsto> ''2000'', AUTH_ROLE_KEY \<mapsto> ''admin'', AUTH_USER_KEY \<mapsto> ''admin'']\<rparr>"

definition w_local_valid :: world where
  "w_local_valid = \<lparr>S = Some [AUTH_ROLE_KEY \<mapsto> ''employee''],
      L = Some [AUTH_EXP_KEY \<mapsto> ''2000'', AUTH_ROLE_KEY \<mapsto> ''admin'', AUTH_USER_KEY \<mapsto> ''admin'']\<rparr>"

section \<open>auth.js: the page gate\<close>

text \<open>
  The part of the page that \<open>showDenied\<close> touches. An element the page does not have is
  \<open>None\<close>; otherwise \<open>authEl\<close> holds the \<open>style.display\<close> of \<open>#auth\<close>, \<open>appEl\<close> the \<open>hidden\<close>
  flag of \<open>#app\<close>, and \<open>deniedEl\<close> the \<open>hidden\<close> flag and the \<open>style.display\<close> of
  \<open>#accessDenied\<close>. \<open>href\<close> is \<open>window.location.href\<close>.
\<close>

record page =
  authEl :: "string option"
  appEl :: "bool option"
  deniedEl :: "(bool \<times> string) option"
  href :: string

text \<open>The options of \<open>ensureAuth\<close>, with their defaults.\<close>

definition allowedRoles :: "string list option \<Rightarrow> string list" where
  "allowedRoles opt =
     (case opt of
        Some rs \<Rightarrow> if rs \<noteq> [] then rs else [''admin'', ''employee'']
      | None \<Rightarrow> [''admin'', ''employee''])"

definition homeHref :: "string option \<Rightarrow> string" where
  "homeHref opt =
     (case opt of
        Some h \<Rightarrow> if h \<noteq> [] then h else ''../index.html''
      | None \<Rightarrow> ''../index.html'')"

definition showDenied :: "string \<Rightarrow> page \<Rightarrow> page" where
  "showDenied home pg =
     (let pg1 = (case authEl pg of None \<Rightarrow> pg | Some d \<Rightarrow> pg\<lparr>authEl := Some ''none''\<rparr>);
          pg2 = (case appEl pg1 of None \<Rightarrow> pg1 | Some h \<Rightarrow> pg1\<lparr>appEl := Some True\<rparr>)
      in case deniedEl pg2 of
           Some d \<Rightarrow> pg2\<lparr>deniedEl := Some (False, ''grid'')\<rparr>
         | None \<Rightarrow> pg2\<lparr>href := home\<rparr>)"

text \<open>
  \<open>enforceRole\<close> is a closure of \<open>ensureAuth\<close> over the allow-list and the home link; here
  the two options are its first arguments.
\<close>

definition enforceRole :: "string list option \<Rightarrow> string option \<Rightarrow> world \<Rightarrow> page \<Rightarrow> bool \<times> page" where
  "enforceRole roles home w pg =
     (let r = getRole w in
      if r \<notin> set (allowedRoles roles) then (False, showDenied (homeHref home) pg)
      else (True, pg))"




section \<open>salary-query.js: the lookup tool\<close>

text \<open>
  A cell of a spreadsheet row: \<open>null\<close> or \<open>undefined\<close>, a string, a number (an integer in
  the model) or a boolean. A row is the dictionary from header to cell that
  \<open>sheet_to_json\<close> builds.
\<close>

datatype cell = CNull | CStr string | CNum int | CBool bool

type_synonym row = "string \<rightharpoonup> cell"

fun String_cell :: "cell \<Rightarrow> string" where
  "String_cell CNull = ''null''"
| "String_cell (CStr s) = s"
| "String_cell (CNum i) = String_num (Num i)"
| "String_cell (CBool b) = (if b then ''true'' else ''false'')"

fun truthy_cell :: "cell \<Rightarrow> bool" where
  "truthy_cell CNull = False"
| "truthy_cell (CStr s) = (s \<noteq> [])"
| "truthy_cell (CNum i) = (i \<noteq> 0)"
| "truthy_cell (CBool b) = b"

fun normalizeCode :: "cell \<Rightarrow> string" where
  "normalizeCode CNull = []"
| "normalizeCode v = trim (String_cell v)"

fun getField :: "row \<Rightarrow> string list \<Rightarrow> cell" where
  "getField r [] = CStr []"
| "getField r (k # ks) =
     (case r k of
        Some v \<Rightarrow> if v \<noteq> CStr [] then v else getField r ks
      | None \<Rightarrow> getField r ks)"

definition CODE_KEYS :: "string list" where
  "CODE_KEYS = [''EmployeeCode'', ''Employee Code'', ''EmpCode'', ''Code'', ''Employee_ID'',
                ''EmployeeID'']"

definition NAME_KEYS :: "string list" where
  "NAME_KEYS = [''Name'', ''EmployeeName'', ''Employee Name'']"

definition POSITION_KEYS :: "string list" where
  "POSITION_KEYS = [''Position'', ''Title'', ''JobTitle'', ''Job Title'']"

definition HIRING_KEYS :: "string list" where
  "HIRING_KEYS = [''HiringDate'', ''Hiring Date'', ''HireDate'', ''Hire Date'']"

definition GROSS_KEYS :: "string list" where
  "GROSS_KEYS = [''BasicGrossSalary'', ''Basic Gross Salary'', ''BasicGross'', ''Basic Gross'']"

definition SI_KEYS :: "string list" where
  "SI_KEYS = [''BasicSocialInsuranceSalary'', ''Basic Social Insurance Salary'',
              ''BasicSISalary'', ''Basic SI Salary'', ''SocialInsuranceSalary'']"

text \<open>The non-ASCII characters of the messages, as their UTF-8 bytes.\<close>

definition dash :: string where
  "dash = [CHR 0xE2, CHR 0x80, CHR 0x94]"

definition ellipsis :: string where
  "ellipsis = [CHR 0xE2, CHR 0x80, CHR 0xA6]"

definition bullet :: string where
  "bullet = [CHR 0xE2, CHR 0x80, CHR 0xA2]"

definition arrow :: string where
  "arrow = [CHR 0xE2, CHR 0x86, CHR 0x92]"

text \<open>
  What the tool gets from outside. \<open>fetch\<close> answers a URL with a network error or with a
  response (status, \<open>ok\<close>, and the outcome of \<open>arrayBuffer()\<close>: an error or the bytes).
  \<open>XLSX_read\<close> is the spreadsheet library: \<open>None\<close> when \<open>XLSX.read\<close> throws, otherwise the
  workbook, whose sheets are given by the rows \<open>sheet_to_json\<close> makes of them. \<open>URL\<close> is
  \<open>new URL(path, base).toString()\<close>. \<open>formatDate\<close> and \<open>formatNumber\<close> rest on \<open>Date\<close>,
  \<open>Intl.NumberFormat\<close> and \<open>XLSX.SSF\<close>, and are taken as given.
\<close>

type_synonym buffer = "nat list"

datatype response = FetchError string | Response nat bool "string + buffer"

record workbook =
  SheetNames :: "string list"
  Sheets :: "string \<rightharpoonup> row list"

record env =
  location_href :: string
  location_origin :: string
  location_pathname :: string
  URL :: "string \<Rightarrow> string \<Rightarrow> string"
  fetch :: "string \<Rightarrow> response"
  XLSX_read :: "buffer \<Rightarrow> workbook option"
  formatDate :: "cell \<Rightarrow> string"
  formatNumber :: "cell \<Rightarrow> string"

text \<open>
  The state of the tool: the two module variables, the texts it shows, the input field,
  and the \<open>hidden\<close> class of the result box and of the optional file box. \<open>trace\<close> is not in
  the source: it lists the fetches and the parses performed so far, so that a property can
  speak of them. The timer that clears a \<open>Loaded\<close> message and the console output are
  not modelled.
\<close>

datatype event = Fetch string | Parse buffer

record tool =
  employeeMap :: "(string \<times> row) list"
  loaded :: bool
  elStatus :: string
  elCode :: string
  elResult_hidden :: bool
  rName :: string
  rPosition :: string
  rHiringDate :: string
  rBasicGross :: string
  rBasicSI :: string
  fileFallback_hidden :: "bool option"
  trace :: "event list"

text \<open>\<open>s.split(sep)\<close> for a one-character separator.\<close>

fun split :: "char \<Rightarrow> string \<Rightarrow> string list" where
  "split sep [] = [[]]"
| "split sep (c # cs) =
     (if c = sep then [] # split sep cs
      else case split sep cs of p # ps \<Rightarrow> (c # p) # ps | [] \<Rightarrow> [[c]])"

definition getRepoBasePrefix :: "env \<Rightarrow> string" where
  "getRepoBasePrefix e =
     (case filter (\<lambda>p. p \<noteq> []) (split CHR ''/'' (location_pathname e)) of
        [] \<Rightarrow> ''/''
      | p # ps \<Rightarrow> ''/'' @ p @ ''/'')"

text \<open>The filter of \<open>buildExcelCandidates\<close>: it keeps the first occurrence of each URL.\<close>

fun dedup :: "string list \<Rightarrow> string list \<Rightarrow> string list" where
  "dedup seen [] = []"
| "dedup seen (u # us) = (if u \<in> set seen then dedup seen us else u # dedup (u # seen) us)"

definition buildExcelCandidates :: "env \<Rightarrow> string list" where
  "buildExcelCandidates e =
     (let repoBase = getRepoBasePrefix e in
      dedup []
        [URL e ''../data/employees.xlsx'' (location_href e),
         URL e ''data/employees.xlsx'' (location_href e),
         URL e ''./data/employees.xlsx'' (location_href e),
         URL e (repoBase @ ''data/employees.xlsx'') (location_origin e),
         URL e (repoBase @ ''Salary-Calculator-main/data/employees.xlsx'') (location_origin e),
         URL e ''/Salary-Calculator-main/data/employees.xlsx'' (location_origin e),
         URL e ''/data/employees.xlsx'' (location_origin e)])"

datatype attempt = Status string nat bool | Error string string

text \<open>
  The loop of \<open>fetchExcelWithFallback\<close>. It returns the list \<open>attempts\<close> when every URL has
  failed (the thrown error carries it), or the buffer, its URL and \<open>attempts\<close>; in both cases
  also the URLs it has fetched, in order.
\<close>

fun fetch_loop ::
  "(string \<Rightarrow> response) \<Rightarrow> string list \<Rightarrow> attempt list \<Rightarrow> string list \<Rightarrow>
     (attempt list + buffer \<times> string \<times> attempt list) \<times> string list" where
  "fetch_loop f [] attempts fetched = (Inl attempts, fetched)"
| "fetch_loop f (url # urls) attempts fetched =
     (case f url of
        FetchError e \<Rightarrow> fetch_loop f urls (attempts @ [Error url e]) (fetched @ [url])
      | Response st okay body \<Rightarrow>
          if \<not> okay then fetch_loop f urls (attempts @ [Status url st okay]) (fetched @ [url])
          else (case body of
                  Inl e \<Rightarrow>
                    fetch_loop f urls (attempts @ [Status url st okay, Error url e])
                      (fetched @ [url])
                | Inr buf \<Rightarrow>
                    if length buf < 64
                    then fetch_loop f urls (attempts @ [Status url st okay]) (fetched @ [url])
                    else (Inr (buf, url, attempts @ [Status url st okay]), fetched @ [url])))"

definition fetchExcelWithFallback ::
  "env \<Rightarrow> (attempt list + buffer \<times> string \<times> attempt list) \<times> string list" where
  "fetchExcelWithFallback e = fetch_loop (fetch e) (buildExcelCandidates e) [] []"

fun loadFromRows_loop :: "row list \<Rightarrow> (string \<times> row) list \<Rightarrow> (string \<times> row) list" where
  "loadFromRows_loop [] m = m"
| "loadFromRows_loop (r # rs) m =
     (let code = normalizeCode (getField r CODE_KEYS) in
      if code = [] then loadFromRows_loop rs m
      else loadFromRows_loop rs (AList.update code r m))"

definition loadFromRows :: "row list \<Rightarrow> tool \<Rightarrow> tool" where
  "loadFromRows rows st =
     (let m = loadFromRows_loop rows [] in
      st\<lparr>employeeMap := m, loaded := True,
         elStatus := ''Loaded '' @ String_num (Num (int (length m))) @ '' employees.''\<rparr>)"

text \<open>What \<open>parseExcelArrayBuffer\<close> throws, or the rows of the first sheet.\<close>

datatype error = AllCandidatesFailed "attempt list" | XLSXError | NoSheets

definition parseExcelArrayBuffer :: "env \<Rightarrow> buffer \<Rightarrow> error + row list" where
  "parseExcelArrayBuffer e buf =
     (case XLSX_read e buf of
        None \<Rightarrow> Inl XLSXError
      | Some wb \<Rightarrow>
          (case SheetNames wb of
             [] \<Rightarrow> Inl NoSheets
           | first # others \<Rightarrow>
               if first = [] then Inl NoSheets
               else (case Sheets wb first of None \<Rightarrow> Inr [] | Some rows \<Rightarrow> Inr rows)))"

fun join :: "string \<Rightarrow> string list \<Rightarrow> string" where
  "join sep [] = []"
| "join sep [x] = x"
| "join sep (x # y # ys) = x @ sep @ join sep (y # ys)"

text \<open>
  A line of the failure message. An attempt with an error message prints the message; one
  whose message is the empty string is falsy in JavaScript and prints as a status line with
  the status \<open>undefined\<close>.
\<close>

fun attempt_line :: "attempt \<Rightarrow> string" where
  "attempt_line (Error url e) =
     (if e \<noteq> [] then bullet @ '' '' @ url @ '' '' @ arrow @ '' '' @ e
      else bullet @ '' '' @ url @ '' '' @ arrow @ '' HTTP undefined'')"
| "attempt_line (Status url st okay) =
     bullet @ '' '' @ url @ '' '' @ arrow @ '' HTTP '' @ String_num (Num (int st))
       @ (if okay then '' (OK)'' else [])"

text \<open>The \<open>catch\<close> block of \<open>loadEmployees\<close>.\<close>

definition loadEmployees_catch :: "error \<Rightarrow> tool \<Rightarrow> tool" where
  "loadEmployees_catch err st =
     (let attempts = (case err of AllCandidatesFailed as \<Rightarrow> as | XLSXError \<Rightarrow> [] | NoSheets \<Rightarrow> []);
          lines = map attempt_line (take 6 attempts)
      in st\<lparr>elStatus :=
               ''Unable to load employees.xlsx from the website. '' @
               ''If you are using GitHub Pages, confirm that /data/employees.xlsx exists in the published site output. '' @
               (if lines \<noteq> [] then '' Tried:'' @ [CHR 0x0A] @ join [CHR 0x0A] lines else []),
            fileFallback_hidden := map_option (\<lambda>h. False) (fileFallback_hidden st)\<rparr>)"

definition loadEmployees :: "env \<Rightarrow> tool \<Rightarrow> tool" where
  "loadEmployees e st =
     (if loaded st then st
      else
        let st1 = st\<lparr>elStatus := ''Loading employees file'' @ ellipsis\<rparr> in
        case fetchExcelWithFallback e of
          (Inl attempts, fetched) \<Rightarrow>
            loadEmployees_catch (AllCandidatesFailed attempts)
              (st1\<lparr>trace := trace st1 @ map Fetch fetched\<rparr>)
        | (Inr (buf, url, attempts), fetched) \<Rightarrow>
            let st2 = st1\<lparr>trace := trace st1 @ map Fetch fetched @ [Parse buf]\<rparr> in
            (case parseExcelArrayBuffer e buf of
               Inl err \<Rightarrow> loadEmployees_catch err st2
             | Inr rows \<Rightarrow> loadFromRows rows st2))"

text \<open>A selected file: its name, and its bytes unless reading it fails.\<close>

record File =
  name :: string
  arrayBuffer :: "buffer option"

definition loadEmployeesFromFile :: "env \<Rightarrow> File option \<Rightarrow> tool \<Rightarrow> tool" where
  "loadEmployeesFromFile e fopt st =
     (case fopt of
        None \<Rightarrow> st
      | Some f \<Rightarrow>
          let st1 = st\<lparr>elStatus := ''Loading '' @ name f @ ellipsis\<rparr>;
              unable = ''Unable to read the selected Excel file. Please use a valid .xlsx file.''
          in (case arrayBuffer f of
                None \<Rightarrow> st1\<lparr>elStatus := unable\<rparr>
              | Some buf \<Rightarrow>
                  (let st2 = st1\<lparr>trace := trace st1 @ [Parse buf]\<rparr> in
                   (case parseExcelArrayBuffer e buf of
                      Inl err \<Rightarrow> st2\<lparr>elStatus := unable\<rparr>
                    | Inr rows \<Rightarrow>
                        loadFromRows rows (st2\<lparr>loaded := False, employeeMap := []\<rparr>)))))"

definition showRow :: "env \<Rightarrow> row \<Rightarrow> tool \<Rightarrow> tool" where
  "showRow e r st =
     (let nm = getField r NAME_KEYS;
          position = getField r POSITION_KEYS;
          hiring = getField r HIRING_KEYS;
          gross = getField r GROSS_KEYS;
          si = getField r SI_KEYS
      in st\<lparr>rName := (if truthy_cell nm then String_cell nm else dash),
            rPosition := (if truthy_cell position then String_cell position else dash),
            rHiringDate := formatDate e hiring,
            rBasicGross := formatNumber e gross,
            rBasicSI := formatNumber e si,
            elResult_hidden := False\<rparr>)"

definition clearResult :: "tool \<Rightarrow> tool" where
  "clearResult st =
     st\<lparr>elResult_hidden := True, rName := dash, rPosition := dash, rHiringDate := dash,
        rBasicGross := dash, rBasicSI := dash\<rparr>"

definition handleSearch :: "env \<Rightarrow> tool \<Rightarrow> tool" where
  "handleSearch e st =
     (let st1 = loadEmployees e (clearResult st) in
      if \<not> loaded st1 then st1
      else
        let code = normalizeCode (CStr (elCode st1)) in
        if code = [] then st1\<lparr>elStatus := ''Please enter an employee code.''\<rparr>
        else (case map_of (employeeMap st1) code of
                None \<Rightarrow> st1\<lparr>elStatus := ''No employee found for code: '' @ code\<rparr>
              | Some r \<Rightarrow> showRow e r (st1\<lparr>elStatus := []\<rparr>)))"

text \<open>The key under which \<open>loadFromRows\<close> files a row.\<close>

definition row_code :: "row \<Rightarrow> string" where
  "row_code r = normalizeCode (getField r CODE_KEYS)"

text \<open>The state in which the module starts, and example rows and surroundings.\<close>

definition st_init :: tool where
  "st_init = \<lparr>employeeMap = [], loaded = False, elStatus = [], elCode = [],
               elResult_hidden = True, rName = dash, rPosition = dash, rHiringDate = dash,
               rBasicGross = dash, rBasicSI = dash, fileFallback_hidden = Some True,
               trace = []\<rparr>"

definition row_E1 :: row where
  "row_E1 = [''EmployeeCode'' \<mapsto> CStr ''E1'', ''Name'' \<mapsto> CStr ''A'']"

definition row_E2 :: row where
  "row_E2 = [''EmpCode'' \<mapsto> CStr ''E2'', ''Name'' \<mapsto> CStr ''B'']"

definition row_E1_again :: row where
  "row_E1_again = [''Code'' \<mapsto> CStr (nbsp @ ''E1 '' @ nbsp), ''Name'' \<mapsto> CStr ''C'']"

definition row_blank :: row where
  "row_blank = [''EmployeeCode'' \<mapsto> CStr ''   '', ''Name'' \<mapsto> CStr ''D'']"

definition row_E0 :: row where
  "row_E0 = [''EmployeeCode'' \<mapsto> CStr ''E0'', ''Name'' \<mapsto> CStr ''Z'']"

text \<open>
  The spec's words for a candidate that fails: a fetch error, a response that is not ok,
  a body that cannot be read, or a payload that is too small.
\<close>

definition candidate_fails :: "(string \<Rightarrow> response) \<Rightarrow> string \<Rightarrow> bool" where
  "candidate_fails f url =
     (case f url of
        FetchError e \<Rightarrow> True
      | Response st okay body \<Rightarrow>
          (if okay then (case body of Inl e \<Rightarrow> True | Inr buf \<Rightarrow> length buf < 64) else True))"

text \<open>
  An example site: the page is \<open>https://h/repo/salary-query/index.html\<close>, the library reads
  one payload as a workbook of two rows and throws on every other one.
\<close>

definition buf_xlsx :: buffer where
  "buf_xlsx = replicate 64 80"

definition buf_html :: buffer where
  "buf_html = replicate 64 60"

definition wb_example :: workbook where
  "wb_example = \<lparr>SheetNames = [''Sheet1''], Sheets = [''Sheet1'' \<mapsto> [row_E1, row_E2]]\<rparr>"

definition URL_example :: "string \<Rightarrow> string \<Rightarrow> string" where
  "URL_example path base =
     (if path = ''../data/employees.xlsx'' then ''https://h/repo/data/employees.xlsx''
      else if path = ''data/employees.xlsx'' \<or> path = ''./data/employees.xlsx''
        then ''https://h/repo/salary-query/data/employees.xlsx''
      else base @ path)"

definition env_example :: "(string \<Rightarrow> response) \<Rightarrow> env" where
  "env_example f =
     \<lparr>location_href = ''https://h/repo/salary-query/index.html'',
      location_origin = ''https://h'',
      location_pathname = ''/repo/salary-query/index.html'',
      URL = URL_example,
      fetch = f,
      XLSX_read = (\<lambda>b. if b = buf_xlsx then Some wb_example else None),
      formatDate = String_cell,
      formatNumber = String_cell\<rparr>"

text \<open>
  Two servers. On the first, the first candidate answers ok with a payload that is not a
  workbook, and the second holds the workbook. On the second, the first candidate is
  missing, the second cannot be reached, and the third holds the workbook.
\<close>

definition fetch_unparseable_first :: "string \<Rightarrow> response" where
  "fetch_unparseable_first u =
     (if u = ''https://h/repo/data/employees.xlsx'' then Response 200 True (Inr buf_html)
      else if u = ''https://h/repo/salary-query/data/employees.xlsx''
        then Response 200 True (Inr buf_xlsx)
      else Response 404 False (Inr []))"

definition fetch_third_good :: "string \<Rightarrow> response" where
  "fetch_third_good u =
     (if u = ''https://h/repo/data/employees.xlsx'' then Response 404 False (Inr buf_html)
      else if u = ''https://h/repo/salary-query/data/employees.xlsx''
        then FetchError ''TypeError: Failed to fetch''
      else if u = ''https://h/repo/Salary-Calculator-main/data/employees.xlsx''
        then Response 200 True (Inr buf_xlsx)
      else Response 404 False (Inr []))"

definition file_example :: File where
  "file_example = \<lparr>name = ''new.xlsx'', arrayBuffer = Some buf_xlsx\<rparr>"

section \<open>Decimal numerals\<close>

lemma of_char_digit_char: "d < 10 \<Longrightarrow> (of_char (digit_char d) :: nat) = 48 + d"
  by (simp add: digit_char_def)

lemma isDigit_digit_char: "d < 10 \<Longrightarrow> isDigit (digit_char d)"
  by (simp add: isDigit_def of_char_digit_char)

lemma digits_ne: "digits n \<noteq> []"
  by (subst digits.simps) simp

lemma digits_all: "list_all isDigit (digits n)"
proof (induction n rule: digits.induct)
  case (1 n)
  show ?case
  proof (cases "n < 10")
    case True
    then show ?thesis by (subst digits.simps) (simp add: isDigit_digit_char)
  next
    case False
    with 1 show ?thesis by (subst digits.simps) (simp add: isDigit_digit_char)
  qed
qed

lemma dec_val_snoc: "dec_val (ds @ [c]) = 10 * dec_val ds + (of_char c - 48)"
  by (simp add: dec_val_def)

lemma dec_val_digits: "dec_val (digits n) = n"
proof (induction n rule: digits.induct)
  case (1 n)
  show ?case
  proof (cases "n < 10")
    case True
    then show ?thesis by (subst digits.simps) (simp add: dec_val_def of_char_digit_char)
  next
    case False
    with 1 show ?thesis
      by (subst digits.simps) (simp add: dec_val_snoc of_char_digit_char)
  qed
qed

lemma isDigit_not_sign: "isDigit c \<Longrightarrow> c \<noteq> CHR ''+'' \<and> c \<noteq> CHR ''-''"
  by (auto simp: isDigit_def)

section \<open>Trimming\<close>

lemma WhiteSpace_ne: "w \<in> set WhiteSpace \<Longrightarrow> w \<noteq> []"
  by (auto simp: WhiteSpace_def)

lemma WhiteSpace_ends:
  "w \<in> set WhiteSpace \<Longrightarrow>
     \<not> isDigit (hd w) \<and> \<not> isDigit (last w) \<and> hd w \<noteq> CHR ''-'' \<and> last w \<noteq> CHR ''-''
     \<and> hd w \<noteq> CHR ''E''"
  by (auto simp: WhiteSpace_def isDigit_def)


lemma WhiteSpace_length_hd:
  "w \<in> set WhiteSpace \<Longrightarrow>
     length w = (if hd w = CHR 0xC2 then 2
                 else if hd w \<in> set [CHR 0xE1, CHR 0xE2, CHR 0xE3, CHR 0xEF] then 3 else 1)"
  by (auto simp: WhiteSpace_def)

lemma WhiteSpace_length_last:
  "w \<in> set WhiteSpace \<Longrightarrow>
     length w = (if last w = CHR 0xA0 then 2
                 else if last w \<in> set [CHR 0x09, CHR 0x0A, CHR 0x0B, CHR 0x0C, CHR 0x0D, CHR 0x20]
                   then 1 else 3)"
  by (auto simp: WhiteSpace_def)

lemma WhiteSpace_prefix_free:
  assumes "a \<in> set WhiteSpace" and "b \<in> set WhiteSpace" and "prefix a b"
  shows "a = b"
proof -
  from assms(3) obtain zs where b: "b = a @ zs" by (auto simp: prefix_def)
  have "a \<noteq> []" using assms(1) by (rule WhiteSpace_ne)
  then have "hd b = hd a" using b by simp
  then have "length a = length b"
    using WhiteSpace_length_hd[OF assms(1)] WhiteSpace_length_hd[OF assms(2)] by simp
  then show ?thesis using b by simp
qed

lemma WhiteSpace_suffix_free:
  assumes "a \<in> set WhiteSpace" and "b \<in> set WhiteSpace" and "suffix a b"
  shows "a = b"
proof -
  from assms(3) obtain zs where b: "b = zs @ a" by (auto simp: suffix_def)
  have "a \<noteq> []" using assms(1) by (rule WhiteSpace_ne)
  then have "last b = last a" using b by simp
  then have "length a = length b"
    using WhiteSpace_length_last[OF assms(1)] WhiteSpace_length_last[OF assms(2)] by simp
  then show ?thesis using b by simp
qed

lemma strip_id: "\<forall>w \<in> set wss. w \<noteq> [] \<longrightarrow> \<not> prefix w s \<Longrightarrow> strip wss s = s"
proof -
  assume a: "\<forall>w \<in> set wss. w \<noteq> [] \<longrightarrow> \<not> prefix w s"
  then have "find (\<lambda>ws. ws \<noteq> [] \<and> prefix ws s) wss = None" by (auto simp: find_None_iff)
  then show ?thesis by (subst strip.simps) simp
qed

lemma strip_no_prefix: "w \<in> set wss \<Longrightarrow> w \<noteq> [] \<Longrightarrow> \<not> prefix w (strip wss s)"
proof (induction wss s rule: strip.induct)
  case (1 wss s)
  show ?case
  proof (cases "find (\<lambda>ws. ws \<noteq> [] \<and> prefix ws s) wss")
    case None
    then have "strip wss s = s" by (subst strip.simps) simp
    moreover have "\<not> prefix w s" using None "1.prems" by (auto simp: find_None_iff)
    ultimately show ?thesis by simp
  next
    case (Some ws)
    then have "strip wss s = strip wss (drop (length ws) s)" by (subst strip.simps) simp
    with "1.IH"[OF Some "1.prems"] show ?thesis by simp
  qed
qed

lemma strip_suffix: "suffix (strip wss s) s"
proof (induction wss s rule: strip.induct)
  case (1 wss s)
  show ?case
  proof (cases "find (\<lambda>ws. ws \<noteq> [] \<and> prefix ws s) wss")
    case None
    then show ?thesis by (subst strip.simps) simp
  next
    case (Some ws)
    then have "strip wss s = strip wss (drop (length ws) s)" by (subst strip.simps) simp
    with "1.IH"[OF Some] show ?thesis
      using suffix_drop[of "length ws" s] by (metis suffix_order.trans)
  qed
qed

lemma strip_concat:
  assumes pf: "\<And>a b. a \<in> set wss \<Longrightarrow> b \<in> set wss \<Longrightarrow> prefix a b \<Longrightarrow> a = b"
    and ne: "[] \<notin> set wss"
    and t: "\<forall>w \<in> set wss. \<not> prefix w t"
  shows "set pre \<subseteq> set wss \<Longrightarrow> strip wss (concat pre @ t) = t"
proof (induction pre)
  case Nil
  show ?case using t by (simp add: strip_id)
next
  case (Cons w pre)
  let ?s = "concat (w # pre) @ t"
  have w: "w \<in> set wss" "w \<noteq> []" "prefix w ?s" using Cons.prems ne by auto
  then have "find (\<lambda>ws. ws \<noteq> [] \<and> prefix ws ?s) wss \<noteq> None" by (auto simp: find_None_iff)
  then obtain w' where f: "find (\<lambda>ws. ws \<noteq> [] \<and> prefix ws ?s) wss = Some w'" by auto
  then have w': "w' \<in> set wss" "prefix w' ?s" by (auto simp: find_Some_iff)
  from prefix_same_cases[OF w'(2) w(3)] have "w' = w" using pf w(1) w'(1) by metis
  with f have "strip wss ?s = strip wss (drop (length w) ?s)" by (subst strip.simps) simp
  also have "drop (length w) ?s = concat pre @ t" by simp
  finally show ?case using Cons by simp
qed

lemma no_prefix_by_hd: "s \<noteq> [] \<Longrightarrow> w \<noteq> [] \<Longrightarrow> hd w \<noteq> hd s \<Longrightarrow> \<not> prefix w s"
  by (auto simp: prefix_def)

lemma no_suffix_by_last: "s \<noteq> [] \<Longrightarrow> w \<noteq> [] \<Longrightarrow> last w \<noteq> last s \<Longrightarrow> \<not> suffix w s"
  by (auto simp: suffix_def)

lemma trim_id:
  assumes "\<forall>w \<in> set WhiteSpace. \<not> prefix w s \<and> \<not> suffix w s"
  shows "trim s = s"
proof -
  have 1: "strip WhiteSpace s = s" using assms by (simp add: strip_id)
  have 2: "strip (map rev WhiteSpace) (rev s) = rev s"
    using assms by (intro strip_id) (auto simp: suffix_to_prefix)
  show ?thesis by (simp add: trim_def 1 2)
qed

lemma trim_ends:
  assumes "w \<in> set WhiteSpace"
  shows "\<not> prefix w (trim s) \<and> \<not> suffix w (trim s)"
proof -
  define a where "a = strip WhiteSpace s"
  define b where "b = strip (map rev WhiteSpace) (rev a)"
  have t: "trim s = rev b" by (simp add: trim_def a_def b_def)
  have wne: "w \<noteq> []" using assms by (rule WhiteSpace_ne)
  have "\<not> prefix (rev w) b" unfolding b_def
    using assms wne by (intro strip_no_prefix) auto
  then have 1: "\<not> suffix w (rev b)" by (simp add: suffix_to_prefix)
  have "suffix b (rev a)" unfolding b_def by (rule strip_suffix)
  then have pa: "prefix (rev b) a" by (simp add: suffix_to_prefix)
  have "\<not> prefix w a" unfolding a_def using assms wne by (rule strip_no_prefix)
  with pa have 2: "\<not> prefix w (rev b)" using prefix_order.trans by blast
  from 1 2 show ?thesis by (simp add: t)
qed

lemma trim_padded:
  assumes pre: "set pre \<subseteq> set WhiteSpace" and post: "set post \<subseteq> set WhiteSpace"
    and core: "core \<noteq> []" "\<forall>w \<in> set WhiteSpace. hd w \<noteq> hd core \<and> last w \<noteq> last core"
  shows "trim (concat pre @ core @ concat post) = core"
proof -
  have ne: "[] \<notin> set WhiteSpace" using WhiteSpace_ne by blast
  have "\<not> prefix w (core @ concat post)" if "w \<in> set WhiteSpace" for w
  proof (rule no_prefix_by_hd)
    show "core @ concat post \<noteq> []" using core by simp
    show "w \<noteq> []" using that by (rule WhiteSpace_ne)
    show "hd w \<noteq> hd (core @ concat post)" using core that by simp
  qed
  then have "\<forall>w \<in> set WhiteSpace. \<not> prefix w (core @ concat post)" by blast
  from strip_concat[OF WhiteSpace_prefix_free ne this pre]
  have 1: "strip WhiteSpace (concat pre @ core @ concat post) = core @ concat post" by simp
  have r: "rev (core @ concat post) = concat (map rev (rev post)) @ rev core"
    by (simp add: rev_concat)
  have pf: "\<And>a b. a \<in> set (map rev WhiteSpace) \<Longrightarrow> b \<in> set (map rev WhiteSpace) \<Longrightarrow>
      prefix a b \<Longrightarrow> a = b"
    using WhiteSpace_suffix_free by (auto simp: suffix_to_prefix)
  have ne': "[] \<notin> set (map rev WhiteSpace)" using ne by auto
  have "\<not> prefix (rev w) (rev core)" if "w \<in> set WhiteSpace" for w
  proof (rule no_prefix_by_hd)
    show "rev core \<noteq> []" using core by simp
    show "rev w \<noteq> []" using WhiteSpace_ne[OF that] by simp
    show "hd (rev w) \<noteq> hd (rev core)"
      using core that WhiteSpace_ne[OF that] by (simp add: hd_rev)
  qed
  then have np: "\<forall>w \<in> set (map rev WhiteSpace). \<not> prefix w (rev core)" by auto
  have sub: "set (map rev (rev post)) \<subseteq> set (map rev WhiteSpace)" using post by auto
  from strip_concat[OF pf ne' np sub]
  have 2: "strip (map rev WhiteSpace) (rev (core @ concat post)) = rev core" unfolding r .
  show ?thesis unfolding trim_def 1 2 by simp
qed

lemma trim_digits: "list_all isDigit s \<Longrightarrow> trim s = s"
proof (rule trim_id, rule ballI)
  fix w
  assume d: "list_all isDigit s" and w: "w \<in> set WhiteSpace"
  note ne = WhiteSpace_ne[OF w] and e = WhiteSpace_ends[OF w]
  show "\<not> prefix w s \<and> \<not> suffix w s"
  proof (cases "s = []")
    case True
    then show ?thesis using ne by simp
  next
    case False
    then have "isDigit (hd s)" "isDigit (last s)" using d by (auto simp: list_all_iff)
    then have "hd w \<noteq> hd s" "last w \<noteq> last s" using e by auto
    then show ?thesis using False ne by (simp add: no_prefix_by_hd no_suffix_by_last)
  qed
qed

section \<open>Decimal numerals, read back\<close>

lemma Number_digits: "Number (digits n) = Num (int n)"
proof -
  obtain c ds where e: "digits n = c # ds" using digits_ne by (cases "digits n") auto
  have a: "list_all isDigit (c # ds)" using digits_all[of n] e by simp
  then have "isDigit c" by simp
  then have s: "c \<noteq> CHR ''+''" "c \<noteq> CHR ''-''" using isDigit_not_sign by auto
  have "trim (c # ds) = c # ds" using trim_digits[OF a] .
  moreover have "dec_val (c # ds) = n" using dec_val_digits[of n] e by simp
  ultimately show ?thesis using a s e by (simp add: Number_def)
qed

lemma trim_minus_digits: "list_all isDigit s \<Longrightarrow> trim (CHR ''-'' # s) = CHR ''-'' # s"
proof (rule trim_id, rule ballI)
  fix w
  assume d: "list_all isDigit s" and w: "w \<in> set WhiteSpace"
  note ne = WhiteSpace_ne[OF w] and e = WhiteSpace_ends[OF w]
  have "last (CHR ''-'' # s) = CHR ''-'' \<or> isDigit (last (CHR ''-'' # s))"
    using d by (cases "s = []") (auto simp: list_all_iff)
  then have "last w \<noteq> last (CHR ''-'' # s)" using e by auto
  moreover have "hd w \<noteq> hd (CHR ''-'' # s)" using e by simp
  ultimately show "\<not> prefix w (CHR ''-'' # s) \<and> \<not> suffix w (CHR ''-'' # s)"
    using ne by (simp add: no_prefix_by_hd no_suffix_by_last)
qed

text \<open>Reading back a number that was written as a string gives the number.\<close>

lemma Number_String_num: "Number (String_num (Num i)) = Num i"
proof (cases "i < 0")
  case True
  then show ?thesis
    using digits_ne[of "nat (- i)"] digits_all[of "nat (- i)"]
    by (simp add: Number_def trim_minus_digits dec_val_digits)
next
  case False
  then show ?thesis by (simp add: Number_digits)
qed

lemma String_num_ne: "String_num (Num e) \<noteq> []"
  by (simp add: digits_ne)

lemma Number_0: "Number ''0'' = Num 0"
proof -
  have "trim ''0'' = ''0''" by code_simp
  then show ?thesis by (simp add: Number_def isDigit_def dec_val_def)
qed

section \<open>The stores\<close>

lemmas key_defs = AUTH_EXP_KEY_def AUTH_ROLE_KEY_def AUTH_USER_KEY_def
lemmas store_defs = sGet_def sSet_def sDel_def lGet_def lSet_def lDel_def

lemma sGet_clearLegacy_loop:
  "k \<notin> set ks \<Longrightarrow> sGet k (clearLegacy_loop ks w) = sGet k w"
  by (induction ks arbitrary: w) (auto simp: store_defs split: option.splits)

lemma lGet_clearLegacy_loop:
  "k \<notin> set ks \<Longrightarrow> lGet k (clearLegacy_loop ks w) = lGet k w"
  by (induction ks arbitrary: w) (auto simp: store_defs split: option.splits)

lemma S_clearLegacy_loop: "S (clearLegacy_loop ks w) = None \<longleftrightarrow> S w = None"
  by (induction ks arbitrary: w) (auto simp: store_defs split: option.splits)

lemma L_clearLegacy_loop: "L (clearLegacy_loop ks w) = None \<longleftrightarrow> L w = None"
  by (induction ks arbitrary: w) (auto simp: store_defs split: option.splits)

lemma legacy_keys:
  "AUTH_EXP_KEY \<notin> set LEGACY_KEYS_TO_CLEAR"
  "AUTH_ROLE_KEY \<notin> set LEGACY_KEYS_TO_CLEAR"
  "AUTH_USER_KEY \<notin> set LEGACY_KEYS_TO_CLEAR"
  by (simp_all add: key_defs LEGACY_KEYS_TO_CLEAR_def)

lemma readS_writeAuth:
  "S w \<noteq> None \<Longrightarrow>
   readAuthFrom (\<lambda>k. sGet k (writeAuth (Num e) r u w)) = \<lparr>exp = Num e, role = r, user = u\<rparr>"
  using String_num_ne[of e]
  by (cases "S w"; cases "L w")
     (simp_all add: readAuthFrom_def writeAuth_def store_defs key_defs Number_String_num
        del: String_num.simps)

lemma readL_writeAuth:
  "L w \<noteq> None \<Longrightarrow>
   readAuthFrom (\<lambda>k. lGet k (writeAuth (Num e) r u w)) = \<lparr>exp = Num e, role = r, user = u\<rparr>"
  using String_num_ne[of e]
  by (cases "S w"; cases "L w")
     (simp_all add: readAuthFrom_def writeAuth_def store_defs key_defs Number_String_num
        del: String_num.simps)

lemma readS_none:
  "S w = None \<Longrightarrow> readAuthFrom (\<lambda>k. sGet k w) = \<lparr>exp = Num 0, role = [], user = []\<rparr>"
  by (simp add: readAuthFrom_def sGet_def Number_0)

lemma readL_none:
  "L w = None \<Longrightarrow> readAuthFrom (\<lambda>k. lGet k w) = \<lparr>exp = Num 0, role = [], user = []\<rparr>"
  by (simp add: readAuthFrom_def lGet_def Number_0)

lemma S_writeAuth: "S (writeAuth e r u w) = None \<longleftrightarrow> S w = None"
  by (cases "S w"; cases "L w") (simp_all add: writeAuth_def store_defs)

lemma L_writeAuth: "L (writeAuth e r u w) = None \<longleftrightarrow> L w = None"
  by (cases "S w"; cases "L w") (simp_all add: writeAuth_def store_defs)

lemma writeAuth_idem: "writeAuth e r u (writeAuth e r u w) = writeAuth e r u w"
  by (cases "S w"; cases "L w") (simp_all add: writeAuth_def store_defs)

lemma clearAuth_reads:
  "sGet AUTH_EXP_KEY (clearAuth w) = None" "sGet AUTH_ROLE_KEY (clearAuth w) = None"
  "sGet AUTH_USER_KEY (clearAuth w) = None" "lGet AUTH_EXP_KEY (clearAuth w) = None"
  "lGet AUTH_ROLE_KEY (clearAuth w) = None" "lGet AUTH_USER_KEY (clearAuth w) = None"
  by (cases "S w"; cases "L w"; simp add: clearAuth_def store_defs)+

section \<open>Login and session validity\<close>

lemma valid_spec_iff: "valid_spec t a \<longleftrightarrow> truthy (exp a) \<and> gt (exp a) t \<and> role a \<noteq> []"
  by (cases "exp a") (auto simp: valid_spec_def)

lemma valid_spec_empty: "\<not> valid_spec t \<lparr>exp = Num 0, role = [], user = []\<rparr>"
  by (simp add: valid_spec_def)

lemma valid_spec_Num:
  "valid_spec t \<lparr>exp = Num e, role = r, user = u\<rparr> \<longleftrightarrow> e \<noteq> 0 \<and> t < e \<and> r \<noteq> []"
  by (simp add: valid_spec_def)

lemma isSessionValid_eq:
  "isSessionValid t w =
     (if valid_spec t (readAuthFrom (\<lambda>k. sGet k w)) then (True, w)
      else if valid_spec t (readAuthFrom (\<lambda>k. lGet k w))
        then (True, writeAuth (exp (readAuthFrom (\<lambda>k. lGet k w)))
                 (role (readAuthFrom (\<lambda>k. lGet k w))) (user (readAuthFrom (\<lambda>k. lGet k w))) w)
        else (False, w))"
  by (simp add: isSessionValid_def Let_def valid_spec_iff)

lemma login_Fail_world:
  "\<not> ok (fst (login t username password w)) \<Longrightarrow>
   snd (login t username password w) = clearLegacy w"
  by (auto simp: login_def Let_def split: option.splits urec.splits if_splits)

lemma login_Ok_world:
  assumes "ok (fst (login t username password w))"
  shows "\<exists>p r. map_of USERS (toLowerCase (trim username)) = Some (p, r) \<and> password = p
           \<and> fst (login t username password w)
               = Ok (t + AUTH_TTL_MS) r (toLowerCase (trim username))
           \<and> snd (login t username password w)
               = writeAuth (Num (t + AUTH_TTL_MS)) r (toLowerCase (trim username)) (clearLegacy w)"
  using assms
  by (auto simp: login_def Let_def USERS_get_def split: option.splits urec.splits if_splits)

lemma USERS_role_ne: "map_of USERS u = Some (p, r) \<Longrightarrow> r \<noteq> []"
  by (auto simp: USERS_def split: if_splits)

lemma Number_2000: "Number ''2000'' = Num 2000"
proof -
  have "trim ''2000'' = ''2000''" by code_simp
  then show ?thesis by (simp add: Number_def isDigit_def dec_val_def)
qed

lemma read_w_local_only:
  "readAuthFrom (\<lambda>k. lGet k w_local_only) = \<lparr>exp = Num 2000, role = ''admin'', user = ''admin''\<rparr>"
  "readAuthFrom (\<lambda>k. sGet k w_local_only) = \<lparr>exp = Num 0, role = [], user = []\<rparr>"
  by (simp_all add: readAuthFrom_def w_local_only_def lGet_def sGet_def key_defs Number_2000 Number_0)

lemma read_w_local_valid:
  "readAuthFrom (\<lambda>k. lGet k w_local_valid) = \<lparr>exp = Num 2000, role = ''admin'', user = ''admin''\<rparr>"
  "readAuthFrom (\<lambda>k. sGet k w_local_valid) = \<lparr>exp = Num 0, role = ''employee'', user = []\<rparr>"
  by (simp_all add: readAuthFrom_def w_local_valid_def lGet_def sGet_def key_defs Number_2000 Number_0)

lemma login_fst:
  "fst (login t username password w) =
     (case map_of USERS (toLowerCase (trim username)) of
        None \<Rightarrow> Fail
      | Some (p, r) \<Rightarrow>
          if password = p then Ok (t + AUTH_TTL_MS) r (toLowerCase (trim username)) else Fail)"
  by (simp add: login_def USERS_get_def Let_def split: option.splits urec.splits)

text \<open>
  C1. For every username and password: when the username, trimmed of the white space at
  its ends (any white space character of JavaScript) and lower-cased, is a key of
  the credential table and the password is that entry's password, character for character,
  \<open>login\<close> returns \<open>{ok: true}\<close> with the role stored for that username (and the expiry
  \<open>t + AUTH_TTL_MS\<close>); for every other pair it returns \<open>{ok: false}\<close>.
\<close>

theorem login_result:
  "fst (login t username password w) =
     (case map_of USERS (toLowerCase (trim username)) of
        None \<Rightarrow> Fail
      | Some (p, r) \<Rightarrow>
          if password = p then Ok (t + AUTH_TTL_MS) r (toLowerCase (trim username)) else Fail)"
  by (rule login_fst)

theorem login_result_witness:
  "fst (login 1000 '' Admin '' ''iEnergy2023'' w_fresh) = Ok 901000 ''admin'' ''admin''
   \<and> fst (login 1000 ''USER'' ''iEnergy'' w_fresh) = Ok 901000 ''employee'' ''user''
   \<and> fst (login 1000 ''admin'' ''ienergy2023'' w_fresh) = Fail
   \<and> fst (login 1000 ''Constructor'' [] w_fresh) = Fail
   \<and> fst (login 1000 (nbsp @ ''Admin'' @ nbsp) ''iEnergy2023'' w_fresh)
       = Ok 901000 ''admin'' ''admin''"
proof -
  have e: "toLowerCase (trim (nbsp @ ''Admin'' @ nbsp)) = ''admin''" by code_simp
  have n: "fst (login 1000 (nbsp @ ''Admin'' @ nbsp) ''iEnergy2023'' w_fresh)
       = Ok 901000 ''admin'' ''admin''"
    using login_result[of 1000 "nbsp @ ''Admin'' @ nbsp" "''iEnergy2023''" w_fresh]
    unfolding e by (simp add: USERS_def AUTH_TTL_MS_def)
  have a: "toLowerCase (trim '' Admin '') = ''admin''" by code_simp
  have b: "toLowerCase (trim ''admin'') = ''admin''" by code_simp
  have c: "toLowerCase (trim ''Constructor'') = ''constructor''" by code_simp
  have d: "toLowerCase (trim ''USER'') = ''user''" by code_simp
  show ?thesis
    using login_result[of 1000 "'' Admin ''" "''iEnergy2023''" w_fresh]
      login_result[of 1000 "''USER''" "''iEnergy''" w_fresh]
      login_result[of 1000 "''admin''" "''ienergy2023''" w_fresh]
      login_result[of 1000 "''Constructor''" "[]" w_fresh] n
    by (simp add: a b c d USERS_def AUTH_TTL_MS_def del: append.simps)
qed

text \<open>
  C2, as the code has it. When at least one of the two stores is available, a successful
  login at time \<open>T\<close> (a clock reading, so not negative) stores the expiry
  \<open>T + AUTH_TTL_MS\<close>; \<open>isSessionValid\<close> answers true at \<open>T + AUTH_TTL_MS - 1\<close> and false at
  \<open>T + AUTH_TTL_MS\<close> and at every later instant; and no call of \<open>isSessionValid\<close>, at whatever
  instant, changes what is stored, so the expiry is never refreshed.
\<close>

theorem session_ttl:
  assumes ok: "ok (fst (login T username password w))"
    and T: "0 \<le> T"
    and av: "S w \<noteq> None \<or> L w \<noteq> None"
  shows "getExpiry (snd (login T username password w)) = Num (T + AUTH_TTL_MS)
       \<and> fst (isSessionValid (T + AUTH_TTL_MS - 1) (snd (login T username password w)))
       \<and> (\<forall>t. T + AUTH_TTL_MS \<le> t \<longrightarrow>
             \<not> fst (isSessionValid t (snd (login T username password w))))
       \<and> (\<forall>t. snd (isSessionValid t (snd (login T username password w)))
             = snd (login T username password w))"
proof -
  define e where "e = T + AUTH_TTL_MS"
  define u where "u = toLowerCase (trim username)"
  define w1 where "w1 = clearLegacy w"
  define w' where "w' = snd (login T username password w)"
  from login_Ok_world[OF ok] obtain p r where
    r: "map_of USERS u = Some (p, r)" and w': "w' = writeAuth (Num e) r u w1"
    by (auto simp: e_def u_def w1_def w'_def)
  have rne: "r \<noteq> []" using USERS_role_ne[OF r] .
  have epos: "e \<noteq> 0" using T by (simp add: e_def AUTH_TTL_MS_def)
  have S1: "S w1 = None \<longleftrightarrow> S w = None" and L1: "L w1 = None \<longleftrightarrow> L w = None"
    by (simp_all add: w1_def clearLegacy_def S_clearLegacy_loop L_clearLegacy_loop)
  let ?a = "\<lparr>exp = Num e, role = r, user = u\<rparr>"
  let ?z = "\<lparr>exp = Num 0, role = [], user = []\<rparr>"
  have rs: "readAuthFrom (\<lambda>k. sGet k w') = (if S w = None then ?z else ?a)"
    using S1 by (simp add: w' readS_writeAuth readS_none S_writeAuth)
  have rl: "readAuthFrom (\<lambda>k. lGet k w') = (if L w = None then ?z else ?a)"
    using L1 by (simp add: w' readL_writeAuth readL_none L_writeAuth)
  have idem: "writeAuth (Num e) r u w' = w'" by (simp add: w' writeAuth_idem)
  have 1: "getExpiry w' = Num e"
    using av epos by (auto simp: getExpiry_def Let_def rs rl)
  have 2: "isSessionValid t w' = (t < e, w')" for t
    using av epos rne
    by (auto simp: isSessionValid_eq rs rl valid_spec_Num valid_spec_empty idem)
  show ?thesis
    using 1 2 by (simp add: e_def[symmetric] w'_def[symmetric])
qed

theorem session_ttl_witness:
  "ok (fst (login 1000 ''admin'' ''iEnergy2023'' w_fresh))
   \<and> S w_fresh \<noteq> None
   \<and> getExpiry (snd (login 1000 ''admin'' ''iEnergy2023'' w_fresh)) = Num 901000
   \<and> fst (isSessionValid 900999 (snd (login 1000 ''admin'' ''iEnergy2023'' w_fresh)))
   \<and> \<not> fst (isSessionValid 901000 (snd (login 1000 ''admin'' ''iEnergy2023'' w_fresh)))"
proof -
  let ?w = "snd (login 1000 ''admin'' ''iEnergy2023'' w_fresh)"
  have b: "toLowerCase (trim ''admin'') = ''admin''" by code_simp
  have h: "ok (fst (login 1000 ''admin'' ''iEnergy2023'' w_fresh))"
    by (simp add: login_fst b USERS_def)
  have a: "S w_fresh \<noteq> None \<or> L w_fresh \<noteq> None" by (simp add: w_fresh_def)
  have T: "(0::int) \<le> 1000" by simp
  have D: "1000 + AUTH_TTL_MS = 901000" by (simp add: AUTH_TTL_MS_def)
  note s = session_ttl[OF h T a, unfolded D]
  from s have 1: "getExpiry ?w = Num 901000" by (rule conjunct1)
  from s have "fst (isSessionValid (901000 - 1) ?w)" by (elim conjE)
  then have 2: "fst (isSessionValid 900999 ?w)" by simp
  from s have "\<forall>t. 901000 \<le> t \<longrightarrow> \<not> fst (isSessionValid t ?w)" by (elim conjE)
  then have 3: "\<not> fst (isSessionValid 901000 ?w)" by (elim allE[of _ 901000]) simp
  have a': "S w_fresh \<noteq> None" by (simp add: w_fresh_def)
  from h a' 1 2 3 show ?thesis by (intro conjI)
qed

text \<open>
  The claim as stated, for every successful login, fails when neither store is available:
  \<open>login\<close> still returns \<open>{ok: true}\<close> with the expiry \<open>T + AUTH_TTL_MS\<close>, but nothing is
  stored, so one millisecond before that expiry \<open>isSessionValid\<close> answers false and the
  expiry reads \<open>0\<close>.
\<close>

theorem session_without_store_counterexample:
  "ok (fst (login 1000 ''admin'' ''iEnergy2023'' w_none))
   \<and> fst (login 1000 ''admin'' ''iEnergy2023'' w_none) = Ok 901000 ''admin'' ''admin''
   \<and> \<not> fst (isSessionValid 900999 (snd (login 1000 ''admin'' ''iEnergy2023'' w_none)))
   \<and> getExpiry (snd (login 1000 ''admin'' ''iEnergy2023'' w_none)) = Num 0"
proof -
  let ?w = "snd (login 1000 ''admin'' ''iEnergy2023'' w_none)"
  have b: "toLowerCase (trim ''admin'') = ''admin''" by code_simp
  have r: "fst (login 1000 ''admin'' ''iEnergy2023'' w_none) = Ok 901000 ''admin'' ''admin''"
    by (simp add: login_fst b USERS_def AUTH_TTL_MS_def)
  then have h: "ok (fst (login 1000 ''admin'' ''iEnergy2023'' w_none))" by simp
  from login_Ok_world[OF h] obtain r' u' where
    "?w = writeAuth (Num (1000 + AUTH_TTL_MS)) r' u' (clearLegacy w_none)" by blast
  then have "S ?w = None" and "L ?w = None"
    by (simp_all add: S_writeAuth L_writeAuth clearLegacy_def S_clearLegacy_loop
        L_clearLegacy_loop w_none_def)
  then have rs: "readAuthFrom (\<lambda>k. sGet k ?w) = \<lparr>exp = Num 0, role = [], user = []\<rparr>"
    and rl: "readAuthFrom (\<lambda>k. lGet k ?w) = \<lparr>exp = Num 0, role = [], user = []\<rparr>"
    by (simp_all add: readS_none readL_none)
  have 1: "\<not> fst (isSessionValid 900999 ?w)"
    by (simp add: isSessionValid_eq rs rl valid_spec_empty)
  have 2: "getExpiry ?w = Num 0" by (simp add: getExpiry_def Let_def rs rl)
  from h r 1 2 show ?thesis by (intro conjI)
qed

text \<open>
  C3, as the code has it. \<open>isSessionValid\<close> answers true exactly when the primary store or
  the secondary store holds a valid session (expiry set and strictly in the future, role
  not empty). When the primary store holds one, nothing is written. When only the secondary
  store holds one, the secondary store still reads the same session afterwards, and the
  primary store, if it is available, reads the secondary store's expiry, role and user; an
  unavailable primary store stays unavailable and holds nothing. When neither holds one, the
  answer is false and nothing is written.
\<close>

theorem isSessionValid_spec:
  "(fst (isSessionValid t w) \<longleftrightarrow>
      valid_spec t (readAuthFrom (\<lambda>k. sGet k w)) \<or> valid_spec t (readAuthFrom (\<lambda>k. lGet k w)))
   \<and> (valid_spec t (readAuthFrom (\<lambda>k. sGet k w)) \<longrightarrow> snd (isSessionValid t w) = w)
   \<and> (\<not> valid_spec t (readAuthFrom (\<lambda>k. sGet k w)) \<and> valid_spec t (readAuthFrom (\<lambda>k. lGet k w)) \<longrightarrow>
        readAuthFrom (\<lambda>k. lGet k (snd (isSessionValid t w))) = readAuthFrom (\<lambda>k. lGet k w)
        \<and> (if S w = None then S (snd (isSessionValid t w)) = None
            else readAuthFrom (\<lambda>k. sGet k (snd (isSessionValid t w)))
                   = readAuthFrom (\<lambda>k. lGet k w)))
   \<and> (\<not> valid_spec t (readAuthFrom (\<lambda>k. sGet k w)) \<and> \<not> valid_spec t (readAuthFrom (\<lambda>k. lGet k w)) \<longrightarrow>
        snd (isSessionValid t w) = w)"
proof -
  let ?ses = "readAuthFrom (\<lambda>k. sGet k w)"
  let ?loc = "readAuthFrom (\<lambda>k. lGet k w)"
  have re: "readAuthFrom (\<lambda>k. lGet k (writeAuth (exp ?loc) (role ?loc) (user ?loc) w)) = ?loc
      \<and> (if S w = None then S (writeAuth (exp ?loc) (role ?loc) (user ?loc) w) = None
          else readAuthFrom (\<lambda>k. sGet k (writeAuth (exp ?loc) (role ?loc) (user ?loc) w)) = ?loc)"
    if v: "valid_spec t ?loc"
  proof -
    from v obtain e where e: "exp ?loc = Num e" by (cases "exp ?loc") (auto simp: valid_spec_def)
    have L: "L w \<noteq> None"
    proof
      assume "L w = None"
      then have "?loc = \<lparr>exp = Num 0, role = [], user = []\<rparr>" by (rule readL_none)
      with v show False by (simp add: valid_spec_empty)
    qed
    have "\<lparr>exp = Num e, role = role ?loc, user = user ?loc\<rparr> = ?loc" using e by simp
    then show ?thesis using L e by (simp add: readL_writeAuth readS_writeAuth S_writeAuth)
  qed
  show ?thesis using re by (simp add: isSessionValid_eq)
qed

theorem isSessionValid_spec_witness:
  "\<not> valid_spec 1000 (readAuthFrom (\<lambda>k. sGet k w_local_valid))
   \<and> valid_spec 1000 (readAuthFrom (\<lambda>k. lGet k w_local_valid))
   \<and> S w_local_valid \<noteq> None
   \<and> fst (isSessionValid 1000 w_local_valid)
   \<and> readAuthFrom (\<lambda>k. sGet k (snd (isSessionValid 1000 w_local_valid)))
       = \<lparr>exp = Num 2000, role = ''admin'', user = ''admin''\<rparr>"
proof -
  have a: "\<not> valid_spec 1000 (readAuthFrom (\<lambda>k. sGet k w_local_valid))"
    by (simp add: read_w_local_valid valid_spec_def)
  have b: "valid_spec 1000 (readAuthFrom (\<lambda>k. lGet k w_local_valid))"
    by (simp add: read_w_local_valid valid_spec_def)
  have c: "S w_local_valid \<noteq> None" by (simp add: w_local_valid_def)
  show ?thesis
    using isSessionValid_spec[of 1000 w_local_valid] a b c
    by (simp add: read_w_local_valid)
qed

text \<open>
  The claim as stated, that the primary store is rehydrated whenever only the secondary
  store holds a valid session, fails when sessionStorage is unavailable: the call answers
  true, and the primary store still reads no session.
\<close>

theorem rehydrate_counterexample:
  "fst (isSessionValid 1000 w_local_only)
   \<and> \<not> valid_spec 1000 (readAuthFrom (\<lambda>k. sGet k w_local_only))
   \<and> valid_spec 1000 (readAuthFrom (\<lambda>k. lGet k w_local_only))
   \<and> readAuthFrom (\<lambda>k. sGet k (snd (isSessionValid 1000 w_local_only)))
       \<noteq> readAuthFrom (\<lambda>k. lGet k w_local_only)"
proof -
  have a: "\<not> valid_spec 1000 (readAuthFrom (\<lambda>k. sGet k w_local_only))"
    by (simp add: read_w_local_only valid_spec_def)
  have b: "valid_spec 1000 (readAuthFrom (\<lambda>k. lGet k w_local_only))"
    by (simp add: read_w_local_only valid_spec_def)
  have "S (snd (isSessionValid 1000 w_local_only)) = None"
    using a b by (simp add: isSessionValid_eq S_writeAuth) (simp add: w_local_only_def)
  then have "readAuthFrom (\<lambda>k. sGet k (snd (isSessionValid 1000 w_local_only)))
      = \<lparr>exp = Num 0, role = [], user = []\<rparr>" by (rule readS_none)
  then show ?thesis using a b by (simp add: isSessionValid_eq read_w_local_only)
qed

text \<open>
  C4. Whenever \<open>login\<close> returns \<open>{ok: false}\<close>, the stored expiry, role and username are the
  same after the call as before it, in the primary and in the secondary store.
\<close>

theorem login_failure_keeps_session:
  assumes "\<not> ok (fst (login t username password w))"
  shows "sGet AUTH_EXP_KEY (snd (login t username password w)) = sGet AUTH_EXP_KEY w
       \<and> sGet AUTH_ROLE_KEY (snd (login t username password w)) = sGet AUTH_ROLE_KEY w
       \<and> sGet AUTH_USER_KEY (snd (login t username password w)) = sGet AUTH_USER_KEY w
       \<and> lGet AUTH_EXP_KEY (snd (login t username password w)) = lGet AUTH_EXP_KEY w
       \<and> lGet AUTH_ROLE_KEY (snd (login t username password w)) = lGet AUTH_ROLE_KEY w
       \<and> lGet AUTH_USER_KEY (snd (login t username password w)) = lGet AUTH_USER_KEY w"
  using assms
  by (simp add: login_Fail_world clearLegacy_def sGet_clearLegacy_loop lGet_clearLegacy_loop
      legacy_keys)

theorem login_failure_keeps_session_witness:
  "\<not> ok (fst (login 1000 ''admin'' ''iEnergy'' w_session))
   \<and> sGet AUTH_EXP_KEY (snd (login 1000 ''admin'' ''iEnergy'' w_session)) = Some ''5000''
   \<and> sGet AUTH_ROLE_KEY (snd (login 1000 ''admin'' ''iEnergy'' w_session)) = Some ''admin''
   \<and> sGet AUTH_USER_KEY (snd (login 1000 ''admin'' ''iEnergy'' w_session)) = Some ''admin''
   \<and> lGet AUTH_EXP_KEY (snd (login 1000 ''admin'' ''iEnergy'' w_session)) = None"
proof -
  have b: "toLowerCase (trim ''admin'') = ''admin''" by code_simp
  have h: "\<not> ok (fst (login 1000 ''admin'' ''iEnergy'' w_session))"
    by (simp add: login_fst b USERS_def)
  show ?thesis
    using login_failure_keeps_session[OF h] h
    by (simp add: w_session_def sGet_def lGet_def key_defs)
qed

text \<open>
  C10. After \<open>logout\<close>, whatever the session was and whichever stores are available,
  \<open>isSessionValid\<close> answers false at every instant, \<open>getRole\<close> and \<open>getUser\<close> return the empty
  string, and none of the three session keys is left in either store.
\<close>

theorem logout_ends_session:
  "fst (isSessionValid t (logout w)) = False
   \<and> getRole (logout w) = [] \<and> getUser (logout w) = []
   \<and> sGet AUTH_EXP_KEY (logout w) = None \<and> sGet AUTH_ROLE_KEY (logout w) = None
   \<and> sGet AUTH_USER_KEY (logout w) = None \<and> lGet AUTH_EXP_KEY (logout w) = None
   \<and> lGet AUTH_ROLE_KEY (logout w) = None \<and> lGet AUTH_USER_KEY (logout w) = None"
  by (simp add: logout_def isSessionValid_def getRole_def getUser_def readAuthFrom_def
      clearAuth_reads Number_0)

theorem logout_ends_session_witness:
  "fst (isSessionValid 1000 (logout w_session)) = False
   \<and> getRole (logout w_session) = [] \<and> getUser (logout w_session) = []
   \<and> getRole w_session = ''admin''"
proof -
  have "getRole w_session = ''admin''"
    by (simp add: getRole_def readAuthFrom_def w_session_def sGet_def key_defs)
  then show ?thesis using logout_ends_session[of 1000 w_session] by simp
qed

section \<open>Role enforcement\<close>


lemma enforceRole_allowed:
  "getRole w \<in> set (allowedRoles roles) \<Longrightarrow> enforceRole roles home w pg = (True, pg)"
  by (simp add: enforceRole_def Let_def)



section \<open>The employee index\<close>

lemma normalizeCode_trimmed:
  "w \<in> set WhiteSpace \<Longrightarrow> \<not> prefix w (normalizeCode v) \<and> \<not> suffix w (normalizeCode v)"
  using WhiteSpace_ne[of w] by (cases v) (simp_all add: trim_ends)

lemma loop_append:
  "loadFromRows_loop (xs @ ys) m = loadFromRows_loop ys (loadFromRows_loop xs m)"
  by (induction xs arbitrary: m) (simp_all add: Let_def)

lemma loop_keys:
  "fst ` set (loadFromRows_loop rows m)
     = fst ` set m \<union> {row_code r | r. r \<in> set rows \<and> row_code r \<noteq> []}"
proof (induction rows arbitrary: m)
  case Nil
  then show ?case by simp
next
  case (Cons r rs)
  show ?case
  proof (cases "row_code r = []")
    case True
    then show ?thesis using Cons[of m] by (auto simp: row_code_def Let_def)
  next
    case False
    then show ?thesis
      using Cons[of "AList.update (row_code r) r m"]
      by (auto simp: row_code_def Let_def AList.dom_update)
  qed
qed

lemma loop_absent:
  "\<forall>r \<in> set rows. row_code r \<noteq> c \<Longrightarrow> map_of (loadFromRows_loop rows m) c = map_of m c"
  by (induction rows arbitrary: m) (auto simp: row_code_def Let_def AList.update_conv')

lemma loop_last:
  assumes "row_code r \<noteq> []" and "\<forall>r' \<in> set post. row_code r' \<noteq> row_code r"
  shows "map_of (loadFromRows_loop (pre @ r # post) m) (row_code r) = Some r"
proof -
  have "loadFromRows_loop (pre @ r # post) m
      = loadFromRows_loop post (AList.update (row_code r) r (loadFromRows_loop pre m))"
    using assms(1) by (simp add: loop_append row_code_def Let_def)
  then show ?thesis using assms(2) by (simp add: loop_absent AList.update_conv')
qed

lemma loop_distinct:
  "distinct (map fst m) \<Longrightarrow> distinct (map fst (loadFromRows_loop rows m))"
  by (induction rows arbitrary: m) (auto simp: Let_def AList.distinct_update)

lemma employeeMap_loadFromRows: "employeeMap (loadFromRows rows st) = loadFromRows_loop rows []"
  by (simp add: loadFromRows_def Let_def)

lemma row_codes:
  "row_code row_E1 = ''E1''" "row_code row_E2 = ''E2''" "row_code row_E1_again = ''E1''"
  "row_code row_blank = []"
proof -
  have t: "trim ''E1'' = ''E1''" "trim ''E2'' = ''E2''" "trim (nbsp @ ''E1 '' @ nbsp) = ''E1''"
    "trim ''   '' = []"
    by code_simp+
  show "row_code row_E1 = ''E1''" "row_code row_E2 = ''E2''" "row_code row_E1_again = ''E1''"
    "row_code row_blank = []"
    by (simp_all add: row_code_def CODE_KEYS_def row_E1_def row_E2_def row_E1_again_def
        row_blank_def t del: append.simps)
qed

text \<open>
  C9. After \<open>loadFromRows\<close>, every key of the index is a non-empty string that neither
  begins nor ends with a white space character; when several rows normalise to the same code, the
  index maps that code to the last of them in source order; and a code that no row
  normalises to (so also the code of a row that normalises to the empty string) is not a
  key.
\<close>

theorem index_keys_normalized:
  "(\<forall>(k, r) \<in> set (employeeMap (loadFromRows rows st)).
       k \<noteq> [] \<and> (\<forall>w \<in> set WhiteSpace. \<not> prefix w k \<and> \<not> suffix w k))
   \<and> (\<forall>pre r post. rows = pre @ r # post \<and> row_code r \<noteq> []
          \<and> (\<forall>r' \<in> set post. row_code r' \<noteq> row_code r) \<longrightarrow>
        map_of (employeeMap (loadFromRows rows st)) (row_code r) = Some r)
   \<and> (\<forall>c. (\<forall>r \<in> set rows. row_code r \<noteq> c) \<longrightarrow>
        map_of (employeeMap (loadFromRows rows st)) c = None)"
proof -
  have 1: "k \<noteq> [] \<and> (\<forall>w \<in> set WhiteSpace. \<not> prefix w k \<and> \<not> suffix w k)"
    if "(k, r) \<in> set (loadFromRows_loop rows [])" for k r
  proof -
    from that have "k \<in> fst ` set (loadFromRows_loop rows [])" by force
    then obtain r' where "k = row_code r'" "row_code r' \<noteq> []" by (auto simp: loop_keys)
    then show ?thesis using normalizeCode_trimmed[where v = "getField r' CODE_KEYS"]
      by (auto simp: row_code_def)
  qed
  show ?thesis
    using 1 by (auto simp: employeeMap_loadFromRows loop_last loop_absent)
qed

theorem index_keys_normalized_witness:
  "map_of (employeeMap (loadFromRows [row_E1, row_E2, row_E1_again, row_blank] st_init)) ''E1''
     = Some row_E1_again
   \<and> map_of (employeeMap (loadFromRows [row_E1, row_E2, row_E1_again, row_blank] st_init)) []
     = None
   \<and> map fst (employeeMap (loadFromRows [row_E1, row_E2, row_E1_again, row_blank] st_init))
     = [''E1'', ''E2'']"
proof -
  let ?rows = "[row_E1, row_E2, row_E1_again, row_blank]"
  note t = index_keys_normalized[of ?rows st_init]
  from t have "\<forall>pre r post. ?rows = pre @ r # post \<and> row_code r \<noteq> []
          \<and> (\<forall>r' \<in> set post. row_code r' \<noteq> row_code r) \<longrightarrow>
        map_of (employeeMap (loadFromRows ?rows st_init)) (row_code r) = Some r"
    by (elim conjE)
  then have "?rows = [row_E1, row_E2] @ row_E1_again # [row_blank] \<and> row_code row_E1_again \<noteq> []
          \<and> (\<forall>r' \<in> set [row_blank]. row_code r' \<noteq> row_code row_E1_again) \<longrightarrow>
        map_of (employeeMap (loadFromRows ?rows st_init)) (row_code row_E1_again) = Some row_E1_again"
    by blast
  then have a: "map_of (employeeMap (loadFromRows ?rows st_init)) ''E1'' = Some row_E1_again"
    by (simp add: row_codes)
  have b: "map_of (employeeMap (loadFromRows ?rows st_init)) [] = None"
    by (simp add: employeeMap_loadFromRows row_codes[unfolded row_code_def] Let_def)
  have c: "map fst (employeeMap (loadFromRows ?rows st_init)) = [''E1'', ''E2'']"
    by (simp add: employeeMap_loadFromRows row_codes[unfolded row_code_def] Let_def)
  from a b c show ?thesis by (intro conjI)
qed

section \<open>Searching and loading\<close>

lemma loadEmployees_loaded: "loaded st \<Longrightarrow> loadEmployees e st = st"
  by (simp add: loadEmployees_def)

lemma handleSearch_loaded:
  "loaded st \<Longrightarrow>
   handleSearch e st =
     (let st1 = clearResult st; code = trim (elCode st) in
      if code = [] then st1\<lparr>elStatus := ''Please enter an employee code.''\<rparr>
      else (case map_of (employeeMap st) code of
              None \<Rightarrow> st1\<lparr>elStatus := ''No employee found for code: '' @ code\<rparr>
            | Some r \<Rightarrow> showRow e r (st1\<lparr>elStatus := []\<rparr>)))"
  by (simp add: handleSearch_def loadEmployees_def clearResult_def Let_def)

lemma index_E1_E2:
  "loadFromRows_loop [row_E1, row_E2] [] = [(''E1'', row_E1), (''E2'', row_E2)]"
  by (simp add: row_codes[unfolded row_code_def] Let_def)

lemma names_E1_E2:
  "getField row_E1 NAME_KEYS = CStr ''A''" "getField row_E2 NAME_KEYS = CStr ''B''"
  by (simp_all add: NAME_KEYS_def row_E1_def row_E2_def)

lemma trims:
  "trim ''E1'' = ''E1''" "trim ''E2'' = ''E2''" "trim ''E3'' = ''E3''" "trim ''  E1 '' = ''E1''"
  by code_simp+

lemma trim_E1_padded:
  assumes "set pre \<subseteq> set WhiteSpace" and "set post \<subseteq> set WhiteSpace"
  shows "trim (concat pre @ ''E1'' @ concat post) = ''E1''"
proof (rule trim_padded[OF assms])
  show "''E1'' \<noteq> []" by simp
  have d: "isDigit CHR ''1''" by (simp add: isDigit_def)
  show "\<forall>w \<in> set WhiteSpace. hd w \<noteq> hd ''E1'' \<and> last w \<noteq> last ''E1''"
  proof
    fix w
    assume "w \<in> set WhiteSpace"
    from WhiteSpace_ends[OF this] have "hd w \<noteq> CHR ''E''" and "\<not> isDigit (last w)"
      by simp_all
    with d have "hd w \<noteq> CHR ''E''" and "last w \<noteq> CHR ''1''" by auto
    then show "hd w \<noteq> hd ''E1'' \<and> last w \<noteq> last ''E1''" by simp
  qed
qed

lemma loaded_loadFromRows: "loaded (loadFromRows rows st)"
  by (simp add: loadFromRows_def Let_def)

lemma search_found:
  assumes "loadFromRows_loop rows [] = m" and "map_of m (trim c) = Some r" and "trim c \<noteq> []"
  shows "handleSearch e ((loadFromRows rows st)\<lparr>elCode := c\<rparr>)
       = showRow e r ((clearResult ((loadFromRows rows st)\<lparr>elCode := c\<rparr>))\<lparr>elStatus := []\<rparr>)"
proof -
  have l: "loaded ((loadFromRows rows st)\<lparr>elCode := c\<rparr>)" by (simp add: loaded_loadFromRows)
  show ?thesis using assms
    by (simp add: handleSearch_loaded[OF l] Let_def employeeMap_loadFromRows)
qed

lemma search_missing:
  assumes "loadFromRows_loop rows [] = m" and "map_of m (trim c) = None" and "trim c \<noteq> []"
  shows "handleSearch e ((loadFromRows rows st)\<lparr>elCode := c\<rparr>)
       = (clearResult ((loadFromRows rows st)\<lparr>elCode := c\<rparr>))
           \<lparr>elStatus := ''No employee found for code: '' @ trim c\<rparr>"
proof -
  have l: "loaded ((loadFromRows rows st)\<lparr>elCode := c\<rparr>)" by (simp add: loaded_loadFromRows)
  show ?thesis using assms
    by (simp add: handleSearch_loaded[OF l] Let_def employeeMap_loadFromRows)
qed

text \<open>
  C6. After loading the rows \<open>{EmployeeCode: "E1", Name: "A"}\<close> and
  \<open>{EmpCode: "E2", Name: "B"}\<close>, a search for \<open>E1\<close> shows the name \<open>A\<close> and a search for \<open>E2\<close>
  the name \<open>B\<close> (the key is found through the list of header synonyms); a search for \<open>E3\<close>
  reports that no employee was found and shows no result; and a search for \<open>E1\<close> with white
  space around it, whatever white space characters stand before and after, still shows \<open>A\<close>.
\<close>

theorem search_example:
  "rName (handleSearch e ((loadFromRows [row_E1, row_E2] st)\<lparr>elCode := ''E1''\<rparr>)) = ''A''
   \<and> elResult_hidden (handleSearch e ((loadFromRows [row_E1, row_E2] st)\<lparr>elCode := ''E1''\<rparr>)) = False
   \<and> rName (handleSearch e ((loadFromRows [row_E1, row_E2] st)\<lparr>elCode := ''E2''\<rparr>)) = ''B''
   \<and> elResult_hidden (handleSearch e ((loadFromRows [row_E1, row_E2] st)\<lparr>elCode := ''E2''\<rparr>)) = False
   \<and> elStatus (handleSearch e ((loadFromRows [row_E1, row_E2] st)\<lparr>elCode := ''E3''\<rparr>))
       = ''No employee found for code: E3''
   \<and> elResult_hidden (handleSearch e ((loadFromRows [row_E1, row_E2] st)\<lparr>elCode := ''E3''\<rparr>)) = True
   \<and> rName (handleSearch e ((loadFromRows [row_E1, row_E2] st)\<lparr>elCode := ''  E1 ''\<rparr>)) = ''A''
   \<and> elResult_hidden (handleSearch e ((loadFromRows [row_E1, row_E2] st)\<lparr>elCode := ''  E1 ''\<rparr>)) = False
   \<and> (\<forall>pre post. set pre \<subseteq> set WhiteSpace \<and> set post \<subseteq> set WhiteSpace \<longrightarrow>
        rName (handleSearch e ((loadFromRows [row_E1, row_E2] st)
                 \<lparr>elCode := concat pre @ ''E1'' @ concat post\<rparr>)) = ''A''
        \<and> elResult_hidden (handleSearch e ((loadFromRows [row_E1, row_E2] st)
                 \<lparr>elCode := concat pre @ ''E1'' @ concat post\<rparr>)) = False)"
proof -
  have a: "handleSearch e ((loadFromRows [row_E1, row_E2] st)\<lparr>elCode := ''E1''\<rparr>)
      = showRow e row_E1 ((clearResult ((loadFromRows [row_E1, row_E2] st)\<lparr>elCode := ''E1''\<rparr>))\<lparr>elStatus := []\<rparr>)"
    by (rule search_found[OF index_E1_E2]) (simp_all add: trims)
  have b: "handleSearch e ((loadFromRows [row_E1, row_E2] st)\<lparr>elCode := ''E2''\<rparr>)
      = showRow e row_E2 ((clearResult ((loadFromRows [row_E1, row_E2] st)\<lparr>elCode := ''E2''\<rparr>))\<lparr>elStatus := []\<rparr>)"
    by (rule search_found[OF index_E1_E2]) (simp_all add: trims)
  have c: "handleSearch e ((loadFromRows [row_E1, row_E2] st)\<lparr>elCode := ''E3''\<rparr>)
      = (clearResult ((loadFromRows [row_E1, row_E2] st)\<lparr>elCode := ''E3''\<rparr>))
           \<lparr>elStatus := ''No employee found for code: '' @ trim ''E3''\<rparr>"
    by (rule search_missing[OF index_E1_E2]) (simp_all add: trims)
  have d: "handleSearch e ((loadFromRows [row_E1, row_E2] st)\<lparr>elCode := ''  E1 ''\<rparr>)
      = showRow e row_E1 ((clearResult ((loadFromRows [row_E1, row_E2] st)\<lparr>elCode := ''  E1 ''\<rparr>))\<lparr>elStatus := []\<rparr>)"
    by (rule search_found[OF index_E1_E2]) (simp_all add: trims)
  have g: "rName (handleSearch e ((loadFromRows [row_E1, row_E2] st)
                 \<lparr>elCode := concat pre @ ''E1'' @ concat post\<rparr>)) = ''A''
        \<and> elResult_hidden (handleSearch e ((loadFromRows [row_E1, row_E2] st)
                 \<lparr>elCode := concat pre @ ''E1'' @ concat post\<rparr>)) = False"
    if "set pre \<subseteq> set WhiteSpace" and "set post \<subseteq> set WhiteSpace" for pre post
  proof -
    have t: "trim (concat pre @ ''E1'' @ concat post) = ''E1''" using that by (rule trim_E1_padded)
    have "handleSearch e ((loadFromRows [row_E1, row_E2] st)
                 \<lparr>elCode := concat pre @ ''E1'' @ concat post\<rparr>)
      = showRow e row_E1 ((clearResult ((loadFromRows [row_E1, row_E2] st)
                 \<lparr>elCode := concat pre @ ''E1'' @ concat post\<rparr>))\<lparr>elStatus := []\<rparr>)"
      by (rule search_found[OF index_E1_E2]) (simp_all only: t, simp_all)
    then show ?thesis by (simp add: showRow_def clearResult_def names_E1_E2 Let_def)
  qed
  have fixed:
    "rName (handleSearch e ((loadFromRows [row_E1, row_E2] st)\<lparr>elCode := ''E1''\<rparr>)) = ''A''
     \<and> elResult_hidden (handleSearch e ((loadFromRows [row_E1, row_E2] st)\<lparr>elCode := ''E1''\<rparr>)) = False
     \<and> rName (handleSearch e ((loadFromRows [row_E1, row_E2] st)\<lparr>elCode := ''E2''\<rparr>)) = ''B''
     \<and> elResult_hidden (handleSearch e ((loadFromRows [row_E1, row_E2] st)\<lparr>elCode := ''E2''\<rparr>)) = False
     \<and> elStatus (handleSearch e ((loadFromRows [row_E1, row_E2] st)\<lparr>elCode := ''E3''\<rparr>))
         = ''No employee found for code: E3''
     \<and> elResult_hidden (handleSearch e ((loadFromRows [row_E1, row_E2] st)\<lparr>elCode := ''E3''\<rparr>)) = True
     \<and> rName (handleSearch e ((loadFromRows [row_E1, row_E2] st)\<lparr>elCode := ''  E1 ''\<rparr>)) = ''A''
     \<and> elResult_hidden (handleSearch e ((loadFromRows [row_E1, row_E2] st)\<lparr>elCode := ''  E1 ''\<rparr>)) = False"
    unfolding a b c d
    by (simp add: showRow_def clearResult_def names_E1_E2 trims Let_def)
  from fixed g show ?thesis by blast
qed

theorem search_example_witness:
  "rName (handleSearch (env_example fetch_third_good)
            ((loadFromRows [row_E1, row_E2] st_init)\<lparr>elCode := ''  E1 ''\<rparr>)) = ''A''
   \<and> elStatus (handleSearch (env_example fetch_third_good)
            ((loadFromRows [row_E1, row_E2] st_init)\<lparr>elCode := ''E3''\<rparr>))
       = ''No employee found for code: E3''
   \<and> set [nbsp, '' ''] \<subseteq> set WhiteSpace
   \<and> set [[CHR 0xE2, CHR 0x80, CHR 0xA8], [CHR 0x09]] \<subseteq> set WhiteSpace
   \<and> rName (handleSearch (env_example fetch_third_good)
            ((loadFromRows [row_E1, row_E2] st_init)
               \<lparr>elCode := concat [nbsp, '' ''] @ ''E1''
                           @ concat [[CHR 0xE2, CHR 0x80, CHR 0xA8], [CHR 0x09]]\<rparr>)) = ''A''"
proof -
  note t = search_example[of "env_example fetch_third_good" st_init]
  have p: "set [nbsp, '' ''] \<subseteq> set WhiteSpace"
    and q: "set [[CHR 0xE2, CHR 0x80, CHR 0xA8], [CHR 0x09]] \<subseteq> set WhiteSpace"
    by (simp_all add: WhiteSpace_def nbsp_def)
  from t have 1: "rName (handleSearch (env_example fetch_third_good)
            ((loadFromRows [row_E1, row_E2] st_init)\<lparr>elCode := ''  E1 ''\<rparr>)) = ''A''"
    by blast
  from t have 2: "elStatus (handleSearch (env_example fetch_third_good)
            ((loadFromRows [row_E1, row_E2] st_init)\<lparr>elCode := ''E3''\<rparr>))
       = ''No employee found for code: E3''"
    by blast
  from t p q have 3: "rName (handleSearch (env_example fetch_third_good)
            ((loadFromRows [row_E1, row_E2] st_init)
               \<lparr>elCode := concat [nbsp, '' ''] @ ''E1''
                           @ concat [[CHR 0xE2, CHR 0x80, CHR 0xA8], [CHR 0x09]]\<rparr>)) = ''A''"
    by blast
  from 1 2 p q 3 show ?thesis by (intro conjI)
qed

lemma set_update_subset: "set (AList.update k v al) \<subseteq> insert (k, v) (set al)"
  by (induction al) auto

lemma loop_values:
  "(k, r) \<in> set (loadFromRows_loop rows m) \<Longrightarrow> r \<in> set rows \<or> (k, r) \<in> set m"
proof (induction rows arbitrary: m)
  case Nil
  then show ?case by simp
next
  case (Cons x xs)
  show ?case
  proof (cases "normalizeCode (getField x CODE_KEYS) = []")
    case True
    with Cons.prems have "(k, r) \<in> set (loadFromRows_loop xs m)" by (simp add: Let_def)
    from Cons.IH[OF this] show ?thesis by auto
  next
    case False
    with Cons.prems have
      "(k, r) \<in> set (loadFromRows_loop xs (AList.update (normalizeCode (getField x CODE_KEYS)) x m))"
      by (simp add: Let_def)
    from Cons.IH[OF this] show ?thesis
      using set_update_subset[of "normalizeCode (getField x CODE_KEYS)" x m] by auto
  qed
qed

lemma loadEmployeesFromFile_ok:
  assumes "arrayBuffer f = Some buf" and "parseExcelArrayBuffer e buf = Inr rows"
  shows "loadEmployeesFromFile e (Some f) st
       = loadFromRows rows
           (st\<lparr>elStatus := ''Loading '' @ name f @ ellipsis, trace := trace st @ [Parse buf],
               loaded := False, employeeMap := []\<rparr>)"
  using assms by (simp add: loadEmployeesFromFile_def Let_def)

text \<open>
  C5. Once the loaded flag is set, \<open>loadEmployees\<close> changes nothing: no fetch, no parse,
  the same index. \<open>loadEmployeesFromFile\<close> with a file that can be read and parsed resets the
  flag and the index and then rebuilds: the result is \<open>loadFromRows\<close> on the rows of the
  file, run from the state with the flag cleared and the index empty, so the new index holds
  rows of that file only, whatever was indexed before (and on return \<open>loadFromRows\<close> has set
  the flag again).
\<close>

theorem load_once_then_file_replaces:
  "(loaded st \<longrightarrow> loadEmployees e st = st)
   \<and> (arrayBuffer f = Some buf \<and> parseExcelArrayBuffer e buf = Inr rows \<longrightarrow>
        loadEmployeesFromFile e (Some f) st
          = loadFromRows rows
              (st\<lparr>elStatus := ''Loading '' @ name f @ ellipsis, trace := trace st @ [Parse buf],
                  loaded := False, employeeMap := []\<rparr>)
        \<and> employeeMap (loadEmployeesFromFile e (Some f) st) = loadFromRows_loop rows []
        \<and> (\<forall>(k, r) \<in> set (employeeMap (loadEmployeesFromFile e (Some f) st)). r \<in> set rows)
        \<and> loaded (loadEmployeesFromFile e (Some f) st))"
proof -
  have "r \<in> set rows" if "(k, r) \<in> set (loadFromRows_loop rows [])" for k r
    using loop_values[OF that] by simp
  then show ?thesis
    by (auto simp: loadEmployees_loaded loadEmployeesFromFile_ok employeeMap_loadFromRows
        loaded_loadFromRows)
qed

lemma parse_example: "parseExcelArrayBuffer (env_example f) buf_xlsx = Inr [row_E1, row_E2]"
  by (simp add: parseExcelArrayBuffer_def env_example_def wb_example_def)

lemma parse_html: "parseExcelArrayBuffer (env_example f) buf_html = Inl XLSXError"
  by (simp add: parseExcelArrayBuffer_def env_example_def buf_html_def buf_xlsx_def)

theorem load_once_then_file_replaces_witness:
  "loaded (loadFromRows [row_E0] st_init)
   \<and> loadEmployees (env_example fetch_third_good) (loadFromRows [row_E0] st_init)
       = loadFromRows [row_E0] st_init
   \<and> arrayBuffer file_example = Some buf_xlsx
   \<and> parseExcelArrayBuffer (env_example fetch_third_good) buf_xlsx = Inr [row_E1, row_E2]
   \<and> employeeMap (loadEmployeesFromFile (env_example fetch_third_good) (Some file_example)
         (loadFromRows [row_E0] st_init)) = [(''E1'', row_E1), (''E2'', row_E2)]"
proof -
  have l: "loaded (loadFromRows [row_E0] st_init)" by (rule loaded_loadFromRows)
  have f: "arrayBuffer file_example = Some buf_xlsx" by (simp add: file_example_def)
  note t = load_once_then_file_replaces[of "loadFromRows [row_E0] st_init"
      "env_example fetch_third_good" file_example buf_xlsx "[row_E1, row_E2]"]
  from t l have 1: "loadEmployees (env_example fetch_third_good) (loadFromRows [row_E0] st_init)
       = loadFromRows [row_E0] st_init" by blast
  from t f parse_example[of fetch_third_good]
  have "employeeMap (loadEmployeesFromFile (env_example fetch_third_good) (Some file_example)
         (loadFromRows [row_E0] st_init)) = loadFromRows_loop [row_E1, row_E2] []" by blast
  then have 2: "employeeMap (loadEmployeesFromFile (env_example fetch_third_good) (Some file_example)
         (loadFromRows [row_E0] st_init)) = [(''E1'', row_E1), (''E2'', row_E2)]"
    by (simp only: index_E1_E2)
  from l 1 f parse_example[of fetch_third_good] 2 show ?thesis by (intro conjI)
qed

lemma fetch_loop_fail_step:
  assumes "candidate_fails f u"
  shows "\<exists>a. fetch_loop f (u # us) attempts fetched
              = fetch_loop f us (attempts @ a) (fetched @ [u])"
proof (cases "f u")
  case (FetchError e)
  then show ?thesis by (intro exI[of _ "[Error u e]"]) simp
next
  case (Response st okay body)
  show ?thesis
  proof (cases okay)
    case False
    with Response show ?thesis by (intro exI[of _ "[Status u st okay]"]) simp
  next
    case True
    show ?thesis
    proof (cases body)
      case (Inl e)
      with Response True show ?thesis
        by (intro exI[of _ "[Status u st okay, Error u e]"]) simp
    next
      case (Inr buf)
      with Response True assms have "length buf < 64" by (simp add: candidate_fails_def)
      with Response True Inr show ?thesis by (intro exI[of _ "[Status u st okay]"]) simp
    qed
  qed
qed

lemma fetch_loop_skip:
  "\<forall>u \<in> set pre. candidate_fails f u \<Longrightarrow>
   \<exists>as. fetch_loop f (pre @ rest) attempts fetched = fetch_loop f rest (attempts @ as) (fetched @ pre)"
proof (induction pre arbitrary: attempts fetched)
  case Nil
  have "fetch_loop f ([] @ rest) attempts fetched = fetch_loop f rest (attempts @ []) (fetched @ [])"
    by simp
  then show ?case by blast
next
  case (Cons u pre)
  from Cons.prems have fu: "candidate_fails f u" and rest: "\<forall>x \<in> set pre. candidate_fails f x"
    by simp_all
  from fetch_loop_fail_step[OF fu, of "pre @ rest" attempts fetched] obtain a where
    step: "fetch_loop f (u # pre @ rest) attempts fetched
             = fetch_loop f (pre @ rest) (attempts @ a) (fetched @ [u])"
    by blast
  from Cons.IH[OF rest, of "attempts @ a" "fetched @ [u]"] obtain as where
    "fetch_loop f (pre @ rest) (attempts @ a) (fetched @ [u])
       = fetch_loop f rest ((attempts @ a) @ as) ((fetched @ [u]) @ pre)" by blast
  with step have "fetch_loop f ((u # pre) @ rest) attempts fetched
       = fetch_loop f rest (attempts @ (a @ as)) (fetched @ (u # pre))" by simp
  then show ?case by blast
qed

lemma fetch_loop_hit:
  "f u = Response st True (Inr buf) \<Longrightarrow> 64 \<le> length buf \<Longrightarrow>
   fetch_loop f (u # post) attempts fetched
     = (Inr (buf, u, attempts @ [Status u st True]), fetched @ [u])"
  by simp

lemma fetch_first_good:
  assumes "\<forall>x \<in> set pre. candidate_fails f x"
    and "f u = Response st True (Inr buf)" and "64 \<le> length buf"
  shows "\<exists>as. fetch_loop f (pre @ u # post) [] [] = (Inr (buf, u, as), pre @ [u])"
proof -
  from fetch_loop_skip[OF assms(1), of "u # post" "[]" "[]"] obtain as where
    "fetch_loop f (pre @ u # post) [] [] = fetch_loop f (u # post) ([] @ as) ([] @ pre)" by blast
  then show ?thesis using assms(2,3) by simp
qed

lemma fetch_all_fail:
  assumes "\<forall>x \<in> set urls. candidate_fails f x"
  shows "\<exists>as. fetch_loop f urls [] [] = (Inl as, urls)"
proof -
  from fetch_loop_skip[OF assms, of "[]" "[]" "[]"] show ?thesis by simp
qed

lemma catch_keeps:
  "loaded (loadEmployees_catch err st) = loaded st"
  "employeeMap (loadEmployees_catch err st) = employeeMap st"
  "trace (loadEmployees_catch err st) = trace st"
  by (simp_all add: loadEmployees_catch_def Let_def)

lemma split_example:
  "split CHR ''/'' ''/repo/salary-query/index.html'' = [[], ''repo'', ''salary-query'', ''index.html'']"
  by simp

lemma repoBase_example: "getRepoBasePrefix (env_example f) = ''/repo/''"
  by (simp add: getRepoBasePrefix_def env_example_def split_example del: split.simps)


lemma URL_example_simps:
  "URL (env_example f) ''../data/employees.xlsx'' b = ''https://h/repo/data/employees.xlsx''"
  "URL (env_example f) ''data/employees.xlsx'' b = ''https://h/repo/salary-query/data/employees.xlsx''"
  "URL (env_example f) ''./data/employees.xlsx'' b = ''https://h/repo/salary-query/data/employees.xlsx''"
  "URL (env_example f) (''/repo/'' @ ''data/employees.xlsx'') (location_origin (env_example f))
     = ''https://h/repo/data/employees.xlsx''"
  "URL (env_example f) (''/repo/'' @ ''Salary-Calculator-main/data/employees.xlsx'')
     (location_origin (env_example f)) = ''https://h/repo/Salary-Calculator-main/data/employees.xlsx''"
  "URL (env_example f) ''/Salary-Calculator-main/data/employees.xlsx''
     (location_origin (env_example f)) = ''https://h/Salary-Calculator-main/data/employees.xlsx''"
  "URL (env_example f) ''/data/employees.xlsx'' (location_origin (env_example f))
     = ''https://h/data/employees.xlsx''"
  by (simp_all add: env_example_def URL_example_def)


lemma dedup_example:
  "dedup []
     [''https://h/repo/data/employees.xlsx'',
      ''https://h/repo/salary-query/data/employees.xlsx'',
      ''https://h/repo/salary-query/data/employees.xlsx'',
      ''https://h/repo/data/employees.xlsx'',
      ''https://h/repo/Salary-Calculator-main/data/employees.xlsx'',
      ''https://h/Salary-Calculator-main/data/employees.xlsx'',
      ''https://h/data/employees.xlsx'']
   = [''https://h/repo/data/employees.xlsx'',
      ''https://h/repo/salary-query/data/employees.xlsx'',
      ''https://h/repo/Salary-Calculator-main/data/employees.xlsx'',
      ''https://h/Salary-Calculator-main/data/employees.xlsx'',
      ''https://h/data/employees.xlsx'']"
  by simp

lemma candidates_example:
  "buildExcelCandidates (env_example f) =
     [''https://h/repo/data/employees.xlsx'',
      ''https://h/repo/salary-query/data/employees.xlsx'',
      ''https://h/repo/Salary-Calculator-main/data/employees.xlsx'',
      ''https://h/Salary-Calculator-main/data/employees.xlsx'',
      ''https://h/data/employees.xlsx'']"
  unfolding buildExcelCandidates_def repoBase_example Let_def URL_example_simps
  by (rule dedup_example)


lemma fetch_env_example: "fetch (env_example f) = f"
  by (simp add: env_example_def)

lemma buf_lengths: "length buf_xlsx = 64" "length buf_html = 64"
  by (simp_all add: buf_xlsx_def buf_html_def)

lemma st_init_fields: "\<not> loaded st_init" "trace st_init = []" "employeeMap st_init = []"
  by (simp_all add: st_init_def)

lemma loadEmployees_hit:
  assumes "fetchExcelWithFallback e = (Inr (buf, u, as), fetched)" and "\<not> loaded s"
  shows "loadEmployees e s =
     (case parseExcelArrayBuffer e buf of
        Inl err \<Rightarrow>
          loadEmployees_catch err
            (s\<lparr>elStatus := ''Loading employees file'' @ ellipsis,
               trace := trace s @ map Fetch fetched @ [Parse buf]\<rparr>)
      | Inr rows \<Rightarrow>
          loadFromRows rows
            (s\<lparr>elStatus := ''Loading employees file'' @ ellipsis,
               trace := trace s @ map Fetch fetched @ [Parse buf]\<rparr>))"
  using assms by (simp add: loadEmployees_def Let_def split: sum.splits)

text \<open>
  The claim as stated, that the load goes on to the first candidate with a parseable
  payload, fails: here the first candidate answers ok with 64 bytes that the library cannot
  read, the second one holds a workbook, and the load ends after the first without ever
  fetching the second.
\<close>

theorem unparseable_first_counterexample:
  "hd (buildExcelCandidates (env_example fetch_unparseable_first))
     = ''https://h/repo/data/employees.xlsx''
   \<and> parseExcelArrayBuffer (env_example fetch_unparseable_first) buf_html = Inl XLSXError
   \<and> buildExcelCandidates (env_example fetch_unparseable_first) ! 1
     = ''https://h/repo/salary-query/data/employees.xlsx''
   \<and> fetch_unparseable_first ''https://h/repo/salary-query/data/employees.xlsx''
     = Response 200 True (Inr buf_xlsx)
   \<and> parseExcelArrayBuffer (env_example fetch_unparseable_first) buf_xlsx = Inr [row_E1, row_E2]
   \<and> \<not> loaded (loadEmployees (env_example fetch_unparseable_first) st_init)
   \<and> trace (loadEmployees (env_example fetch_unparseable_first) st_init)
     = [Fetch ''https://h/repo/data/employees.xlsx'', Parse buf_html]"
proof -
  let ?e = "env_example fetch_unparseable_first"
  let ?u = "''https://h/repo/data/employees.xlsx''"
  let ?post = "[''https://h/repo/salary-query/data/employees.xlsx'',
      ''https://h/repo/Salary-Calculator-main/data/employees.xlsx'',
      ''https://h/Salary-Calculator-main/data/employees.xlsx'',
      ''https://h/data/employees.xlsx'']"
  have c: "buildExcelCandidates ?e = [] @ ?u # ?post"
    by (simp only: candidates_example append_Nil)
  have u: "fetch_unparseable_first ?u = Response 200 True (Inr buf_html)"
    by (simp add: fetch_unparseable_first_def)
  have len: "64 \<le> length buf_html" by (simp add: buf_lengths)
  have "\<forall>x \<in> set []. candidate_fails fetch_unparseable_first x" by simp
  from fetch_first_good[OF this u len, of ?post] obtain as where
    "fetch_loop fetch_unparseable_first ([] @ ?u # ?post) [] [] = (Inr (buf_html, ?u, as), [] @ [?u])"
    by blast
  then have f: "fetchExcelWithFallback ?e = (Inr (buf_html, ?u, as), [?u])"
    unfolding fetchExcelWithFallback_def c fetch_env_example by (simp only: append_Nil)
  have l: "loadEmployees ?e st_init
      = loadEmployees_catch XLSXError
          (st_init\<lparr>elStatus := ''Loading employees file'' @ ellipsis,
                   trace := trace st_init @ map Fetch [?u] @ [Parse buf_html]\<rparr>)"
    unfolding loadEmployees_hit[OF f st_init_fields(1)] parse_html by simp
  have 1: "\<not> loaded (loadEmployees ?e st_init)"
    unfolding l catch_keeps by (simp add: st_init_fields)
  have 2: "trace (loadEmployees ?e st_init) = [Fetch ?u, Parse buf_html]"
    unfolding l catch_keeps by (simp add: st_init_fields)
  have 3: "fetch_unparseable_first ''https://h/repo/salary-query/data/employees.xlsx''
     = Response 200 True (Inr buf_xlsx)"
    by (simp add: fetch_unparseable_first_def)
  have 4: "hd (buildExcelCandidates ?e) = ?u" unfolding candidates_example by simp
  have 5: "buildExcelCandidates ?e ! 1 = ''https://h/repo/salary-query/data/employees.xlsx''"
    unfolding candidates_example by simp
  from 4 parse_html[of fetch_unparseable_first] 5 3 parse_example[of fetch_unparseable_first] 1 2
  show ?thesis by (intro conjI)
qed


text \<open>
  C7, as the code has it. \<open>loadEmployees\<close> tries the candidates in order and stops at the
  first one that answers ok with a payload of at least 64 bytes: when every candidate before
  it fails (fetch error, response not ok, unreadable body, payload too small), exactly the
  candidates up to it are fetched. Its payload is then parsed, once. If it parses, the index
  is built from its rows. If it does not parse, the load ends there: the flag stays unset,
  the index is unchanged, and no later candidate is fetched.
\<close>

theorem loadEmployees_first_fetchable:
  assumes c: "buildExcelCandidates e = pre @ u # post"
    and pre: "\<forall>x \<in> set pre. candidate_fails (fetch e) x"
    and u: "fetch e u = Response st True (Inr buf)" and len: "64 \<le> length buf"
    and nl: "\<not> loaded s"
  shows "(\<exists>as. fetchExcelWithFallback e = (Inr (buf, u, as), pre @ [u]))
       \<and> (\<forall>rows. parseExcelArrayBuffer e buf = Inr rows \<longrightarrow>
            loadEmployees e s
              = loadFromRows rows
                  (s\<lparr>elStatus := ''Loading employees file'' @ ellipsis,
                     trace := trace s @ map Fetch (pre @ [u]) @ [Parse buf]\<rparr>))
       \<and> (\<forall>err. parseExcelArrayBuffer e buf = Inl err \<longrightarrow>
            \<not> loaded (loadEmployees e s)
            \<and> employeeMap (loadEmployees e s) = employeeMap s
            \<and> trace (loadEmployees e s) = trace s @ map Fetch (pre @ [u]) @ [Parse buf])"
proof -
  from fetch_first_good[OF pre u len, of post] c obtain as where
    f: "fetchExcelWithFallback e = (Inr (buf, u, as), pre @ [u])"
    by (auto simp: fetchExcelWithFallback_def)
  show ?thesis
    using f nl by (auto simp: loadEmployees_hit[OF f nl] catch_keeps)
qed

theorem loadEmployees_first_fetchable_witness:
  "\<not> loaded st_init
   \<and> candidate_fails fetch_third_good ''https://h/repo/data/employees.xlsx''
   \<and> candidate_fails fetch_third_good ''https://h/repo/salary-query/data/employees.xlsx''
   \<and> loaded (loadEmployees (env_example fetch_third_good) st_init)
   \<and> employeeMap (loadEmployees (env_example fetch_third_good) st_init)
       = [(''E1'', row_E1), (''E2'', row_E2)]
   \<and> trace (loadEmployees (env_example fetch_third_good) st_init)
       = [Fetch ''https://h/repo/data/employees.xlsx'',
          Fetch ''https://h/repo/salary-query/data/employees.xlsx'',
          Fetch ''https://h/repo/Salary-Calculator-main/data/employees.xlsx'',
          Parse buf_xlsx]"
proof -
  let ?e = "env_example fetch_third_good"
  let ?u1 = "''https://h/repo/data/employees.xlsx''"
  let ?u2 = "''https://h/repo/salary-query/data/employees.xlsx''"
  let ?u = "''https://h/repo/Salary-Calculator-main/data/employees.xlsx''"
  let ?post = "[''https://h/Salary-Calculator-main/data/employees.xlsx'',
                ''https://h/data/employees.xlsx'']"
  let ?s = "st_init\<lparr>elStatus := ''Loading employees file'' @ ellipsis,
                   trace := trace st_init @ map Fetch ([?u1, ?u2] @ [?u]) @ [Parse buf_xlsx]\<rparr>"
  have c: "buildExcelCandidates ?e = [?u1, ?u2] @ ?u # ?post"
    unfolding candidates_example by simp
  have f1: "candidate_fails fetch_third_good ?u1"
    by (simp add: candidate_fails_def fetch_third_good_def)
  have f2: "candidate_fails fetch_third_good ?u2"
    by (simp add: candidate_fails_def fetch_third_good_def)
  have pre: "\<forall>x \<in> set [?u1, ?u2]. candidate_fails (fetch ?e) x"
    unfolding fetch_env_example using f1 f2 by simp
  have u: "fetch ?e ?u = Response 200 True (Inr buf_xlsx)"
    unfolding fetch_env_example by (simp add: fetch_third_good_def)
  have len: "64 \<le> length buf_xlsx" by (simp add: buf_lengths)
  have nl: "\<not> loaded st_init" by (rule st_init_fields(1))
  from loadEmployees_first_fetchable[OF c pre u len nl] parse_example[of fetch_third_good]
  have l: "loadEmployees ?e st_init = loadFromRows [row_E1, row_E2] ?s"
    by blast
  have 1: "loaded (loadEmployees ?e st_init)" unfolding l by (rule loaded_loadFromRows)
  have 2: "employeeMap (loadEmployees ?e st_init) = [(''E1'', row_E1), (''E2'', row_E2)]"
    unfolding l employeeMap_loadFromRows by (rule index_E1_E2)
  have "trace (loadFromRows [row_E1, row_E2] ?s) = trace ?s"
    by (simp add: loadFromRows_def Let_def del: loadFromRows_loop.simps)
  then have 3: "trace (loadEmployees ?e st_init) = [Fetch ?u1, Fetch ?u2, Fetch ?u, Parse buf_xlsx]"
    unfolding l by (simp add: st_init_fields)
  from nl f1 f2 1 2 3 show ?thesis by (intro conjI)
qed

end
